theory Spec2Isabelle
  imports Main "HOL-Library.AList"
begin

section \<open>Python values and entities\<close>

text \<open>
  The entities of \<^verbatim>\<open>symlink_manager\<close> (Media, Torrent, MediaFile) are SQLAlchemy
  objects whose columns are read and written by name (\<^verbatim>\<open>getattr\<close>, \<^verbatim>\<open>setattr\<close>,
  \<^verbatim>\<open>__dict__\<close>). An entity is therefore modelled as its attribute dictionary: an
  association list from attribute names to optional values, where \<open>None\<close> is Python's
  \<^verbatim>\<open>None\<close>. Keyword arguments (\<^verbatim>\<open>**kwargs\<close>) are dictionaries of the same shape.
  Strings are lists of 8-bit characters.
\<close>

datatype pyval = VStr string | VInt int | VBool bool

type_synonym pydict = "(string \<times> pyval option) list"

type_synonym entity = pydict

text \<open>Python truthiness of a value that may be \<^verbatim>\<open>None\<close>.\<close>

fun truthy :: "pyval option \<Rightarrow> bool" where
  "truthy None = False"
| "truthy (Some (VStr s)) = (s \<noteq> [])"
| "truthy (Some (VInt n)) = (n \<noteq> 0)"
| "truthy (Some (VBool b)) = b"

text \<open>\<^verbatim>\<open>d.get(k)\<close>: a missing key reads as \<^verbatim>\<open>None\<close>.\<close>

definition dict_get :: "pydict \<Rightarrow> string \<Rightarrow> pyval option" where
  "dict_get d k = (case map_of d k of None \<Rightarrow> None | Some v \<Rightarrow> v)"

text \<open>\<^verbatim>\<open>getattr(entity, key, None)\<close> and \<^verbatim>\<open>setattr(entity, key, value)\<close>.\<close>

definition getattr :: "entity \<Rightarrow> string \<Rightarrow> pyval option" where
  "getattr e key = dict_get e key"

definition setattr :: "entity \<Rightarrow> string \<Rightarrow> pyval option \<Rightarrow> entity" where
  "setattr e key v = AList.update key v e"

section \<open>The entity store (database/repository.py)\<close>

subsection \<open>EntityHandler\<close>

text \<open>
  \<^verbatim>\<open>EntityHandler.update\<close>: the loop over \<^verbatim>\<open>kwargs.items()\<close>. Logging and
  \<^verbatim>\<open>session.flush()\<close> have no effect on the attribute values.
\<close>

fun EntityHandler_update :: "entity \<Rightarrow> pydict \<Rightarrow> entity" where
  "EntityHandler_update e [] = e"
| "EntityHandler_update e ((key, v) # kwargs) =
     EntityHandler_update (if getattr e key = None then setattr e key v else e) kwargs"

text \<open>
  \<^verbatim>\<open>EntityHandler._extract_attributes\<close>: the entries of \<^verbatim>\<open>entity.__dict__\<close> whose key
  does not start with an underscore and whose value is not \<^verbatim>\<open>None\<close>.
\<close>

definition startswith_underscore :: "string \<Rightarrow> bool" where
  "startswith_underscore key = (case key of [] \<Rightarrow> False | c # _ \<Rightarrow> c = CHR ''_'')"

definition extract_attributes :: "entity \<Rightarrow> pydict" where
  "extract_attributes e =
     filter (\<lambda>(key, v). \<not> startswith_underscore key \<and> v \<noteq> None) e"

subsection \<open>The session\<close>

text \<open>
  The session holds the rows of the three tables. An entity object is referred to by
  its position in its table (its address): handlers mutate the object in place, so an
  update of a row is visible through every relationship that reaches it. The
  relationships \<^verbatim>\<open>MediaFile.torrent\<close>, \<^verbatim>\<open>MediaFile.media\<close> and \<^verbatim>\<open>Torrent.files\<close> are
  lookups through the foreign keys. The engine's constraint checks are outside the
  model: the store is a plain create/read/update/delete store.
\<close>

record store =
  media :: "entity list"
  torrents :: "entity list"
  mediafiles :: "entity list"

fun first_index :: "('a \<Rightarrow> bool) \<Rightarrow> 'a list \<Rightarrow> nat option" where
  "first_index P [] = None"
| "first_index P (x # xs) = (if P x then Some 0 else map_option Suc (first_index P xs))"

text \<open>\<^verbatim>\<open>entity.torrent\<close>: the address of the Torrent whose id is the file's torrent_id.\<close>

definition rel_torrent :: "store \<Rightarrow> entity \<Rightarrow> nat option" where
  "rel_torrent s f =
     (case getattr f ''torrent_id'' of
        None \<Rightarrow> None
      | Some v \<Rightarrow> first_index (\<lambda>t. getattr t ''id'' = Some v) (torrents s))"

text \<open>\<^verbatim>\<open>entity.media\<close>: the address of the Media whose id is the file's media_id.\<close>

definition rel_media :: "store \<Rightarrow> entity \<Rightarrow> nat option" where
  "rel_media s f =
     (case getattr f ''media_id'' of
        None \<Rightarrow> None
      | Some v \<Rightarrow> first_index (\<lambda>m. getattr m ''id'' = Some v) (media s))"

text \<open>\<^verbatim>\<open>media_file in torrent.files\<close>: the file's torrent_id is the torrent's id.\<close>

definition in_files :: "entity \<Rightarrow> entity \<Rightarrow> bool" where
  "in_files torrent media_file =
     (getattr torrent ''id'' \<noteq> None \<and>
      getattr media_file ''torrent_id'' = getattr torrent ''id'')"

subsection \<open>MediaHandler, MediaFileHandler and TorrentHandler: update\<close>

text \<open>MediaHandler inherits \<^verbatim>\<open>EntityHandler.update\<close>.\<close>

definition MediaHandler_update :: "store \<Rightarrow> nat \<Rightarrow> pydict \<Rightarrow> store" where
  "MediaHandler_update s i kwargs =
     s\<lparr>media := (media s)[i := EntityHandler_update (media s ! i) kwargs]\<rparr>"

text \<open>
  \<^verbatim>\<open>MediaFileHandler.update\<close>: the inherited update, then, when the file has both a
  torrent and a media, \<^verbatim>\<open>entity.torrent.media_id = entity.media_id\<close>.
\<close>

definition MediaFileHandler_update :: "store \<Rightarrow> nat \<Rightarrow> pydict \<Rightarrow> store" where
  "MediaFileHandler_update s i kwargs =
     (let entity = EntityHandler_update (mediafiles s ! i) kwargs;
          s1 = s\<lparr>mediafiles := (mediafiles s)[i := entity]\<rparr>
      in case rel_torrent s1 entity of
           None \<Rightarrow> s1
         | Some ti \<Rightarrow>
             (case rel_media s1 entity of
                None \<Rightarrow> s1
              | Some _ \<Rightarrow>
                  s1\<lparr>torrents := (torrents s1)
                       [ti := setattr (torrents s1 ! ti) ''media_id''
                                (getattr entity ''media_id'')]\<rparr>))"

text \<open>\<^verbatim>\<open>TorrentHandler._propagate_media_id_to_files\<close>.\<close>

definition propagate_media_id_to_files :: "store \<Rightarrow> nat \<Rightarrow> store" where
  "propagate_media_id_to_files s i =
     (let torrent = torrents s ! i
      in if \<not> truthy (getattr torrent ''media_id'') then s
         else s\<lparr>mediafiles :=
                  map (\<lambda>media_file.
                         if in_files torrent media_file
                         then setattr media_file ''media_id'' (getattr torrent ''media_id'')
                         else media_file)
                      (mediafiles s)\<rparr>)"

text \<open>\<^verbatim>\<open>TorrentHandler.update\<close>.\<close>

definition TorrentHandler_update :: "store \<Rightarrow> nat \<Rightarrow> pydict \<Rightarrow> store" where
  "TorrentHandler_update s i kwargs =
     (let old_media_id = getattr (torrents s ! i) ''media_id'';
          entity = EntityHandler_update (torrents s ! i) kwargs;
          s1 = s\<lparr>torrents := (torrents s)[i := entity]\<rparr>
      in if old_media_id = None \<and> getattr entity ''media_id'' \<noteq> None
         then propagate_media_id_to_files s1 i
         else s1)"

text \<open>
  The factory \<^verbatim>\<open>MediaFile.create\<close>: the constructor receives all seven keyword
  arguments, the unset ones as \<^verbatim>\<open>None\<close>.
\<close>

definition MediaFile_create ::
  "pyval option \<Rightarrow> pyval option \<Rightarrow> pyval option \<Rightarrow> pyval option \<Rightarrow>
   pyval option \<Rightarrow> pyval option \<Rightarrow> pyval option \<Rightarrow> entity" where
  "MediaFile_create target_path file_size media_id torrent_id symlink_path season episode =
     [(''target_path'', target_path), (''file_size'', file_size),
      (''media_id'', media_id), (''torrent_id'', torrent_id),
      (''symlink_path'', symlink_path), (''season'', season), (''episode'', episode)]"

subsection \<open>Rendering values as text\<close>

text \<open>\<^verbatim>\<open>str(n)\<close> for an integer: its decimal digits.\<close>

definition digit_char :: "nat \<Rightarrow> char" where
  "digit_char d = ''0123456789'' ! d"

function str_nat :: "nat \<Rightarrow> string" where
  "str_nat n = (if n < 10 then [digit_char n] else str_nat (n div 10) @ [digit_char (n mod 10)])"
  by pat_completeness auto
termination
  by (relation "measure id") auto

declare str_nat.simps [simp del]

definition str_int :: "int \<Rightarrow> string" where
  "str_int i = (if i < 0 then CHR ''-'' # str_nat (nat (- i)) else str_nat (nat i))"

text \<open>\<^verbatim>\<open>str(v)\<close>; in particular \<^verbatim>\<open>str(None)\<close> is the four letters \<^verbatim>\<open>None\<close>.\<close>

fun py_str :: "pyval option \<Rightarrow> string" where
  "py_str None = ''None''"
| "py_str (Some (VStr s)) = s"
| "py_str (Some (VInt i)) = str_int i"
| "py_str (Some (VBool b)) = (if b then ''True'' else ''False'')"

text \<open>\<^verbatim>\<open>a or b\<close>.\<close>

definition py_or :: "pyval option \<Rightarrow> pyval option \<Rightarrow> pyval option" where
  "py_or a b = (if truthy a then a else b)"

subsection \<open>Adding entities\<close>

text \<open>
  \<^verbatim>\<open>EntityHandler.add\<close>: \<^verbatim>\<open>session.add\<close> and \<^verbatim>\<open>session.flush\<close>. The flush gives a
  row of a table with an autoincrement key (torrents, mediafiles) whose id is unset the
  next id: one more than the largest id in the table.
\<close>

fun max_id :: "entity list \<Rightarrow> int" where
  "max_id [] = 0"
| "max_id (e # rows) =
     (case getattr e ''id'' of Some (VInt n) \<Rightarrow> max n (max_id rows) | _ \<Rightarrow> max_id rows)"

definition flush_id :: "entity list \<Rightarrow> entity \<Rightarrow> entity" where
  "flush_id rows e =
     (if getattr e ''id'' = None then setattr e ''id'' (Some (VInt (max_id rows + 1))) else e)"

text \<open>\<^verbatim>\<open>MediaFileHandler.get_by_path\<close>: the first row whose target path or symlink path
  is the given text.\<close>

definition MediaFileHandler_get_by_path :: "store \<Rightarrow> pyval option \<Rightarrow> nat option" where
  "MediaFileHandler_get_by_path s path =
     (let path_str = py_str path
      in first_index (\<lambda>f. getattr f ''target_path'' = Some (VStr path_str) \<or>
                          getattr f ''symlink_path'' = Some (VStr path_str))
           (mediafiles s))"

text \<open>
  \<^verbatim>\<open>MediaFileHandler.add\<close>: returns the session and the address of the returned
  entity. An entity object is always truthy, so \<^verbatim>\<open>if existing\<close> asks whether a row was
  found.
\<close>

definition MediaFileHandler_add :: "store \<Rightarrow> entity \<Rightarrow> store \<times> nat" where
  "MediaFileHandler_add s entity =
     (case MediaFileHandler_get_by_path s
             (py_or (getattr entity ''symlink_path'') (getattr entity ''target_path'')) of
        Some existing \<Rightarrow>
          (MediaFileHandler_update s existing (extract_attributes entity), existing)
      | None \<Rightarrow>
          (s\<lparr>mediafiles := mediafiles s @ [flush_id (mediafiles s) entity]\<rparr>,
           length (mediafiles s)))"

text \<open>\<^verbatim>\<open>TorrentHandler.get_by_path\<close> and \<^verbatim>\<open>TorrentHandler.add\<close>.\<close>

definition TorrentHandler_get_by_path :: "store \<Rightarrow> pyval option \<Rightarrow> nat option" where
  "TorrentHandler_get_by_path s path =
     (let path_str = py_str path
      in first_index (\<lambda>t. getattr t ''path'' = Some (VStr path_str)) (torrents s))"

definition TorrentHandler_add :: "store \<Rightarrow> entity \<Rightarrow> store \<times> nat" where
  "TorrentHandler_add s entity =
     (case TorrentHandler_get_by_path s (getattr entity ''path'') of
        Some existing \<Rightarrow> (s, existing)
      | None \<Rightarrow>
          (s\<lparr>torrents := torrents s @ [flush_id (torrents s) entity]\<rparr>,
           length (torrents s)))"

text \<open>\<^verbatim>\<open>get_by_id\<close> on the media table and \<^verbatim>\<open>MediaHandler.add\<close>.\<close>

definition MediaHandler_get_by_id :: "store \<Rightarrow> pyval option \<Rightarrow> nat option" where
  "MediaHandler_get_by_id s id_value =
     (case id_value of
        None \<Rightarrow> None
      | Some v \<Rightarrow> first_index (\<lambda>m. getattr m ''id'' = Some v) (media s))"

definition MediaHandler_add :: "store \<Rightarrow> entity \<Rightarrow> store \<times> nat" where
  "MediaHandler_add s entity =
     (case MediaHandler_get_by_id s (getattr entity ''id'') of
        Some existing \<Rightarrow> (s, existing)
      | None \<Rightarrow> (s\<lparr>media := media s @ [entity]\<rparr>, length (media s)))"

text \<open>The constructors \<^verbatim>\<open>Media.create\<close> and \<^verbatim>\<open>Torrent(path=, torrent_title=, torrent_year=)\<close>.\<close>

definition Media_create ::
  "string \<Rightarrow> pyval option \<Rightarrow> pyval option \<Rightarrow> pyval option \<Rightarrow> pyval option \<Rightarrow> entity" where
  "Media_create kind imdb_id title year anime =
     [(''id'', imdb_id), (''title'', title), (''year'', year), (''anime'', anime),
      (''media_type'', Some (VStr (if kind = ''movie'' then ''movie'' else ''show'')))]"

definition Torrent_new :: "pyval option \<Rightarrow> pyval option \<Rightarrow> pyval option \<Rightarrow> entity" where
  "Torrent_new path torrent_title torrent_year =
     [(''path'', path), (''torrent_title'', torrent_title), (''torrent_year'', torrent_year)]"

subsection \<open>Example sessions\<close>

definition example_file :: "pyval option \<Rightarrow> entity" where
  "example_file season =
     (''id'', Some (VInt 1)) #
     MediaFile_create (Some (VStr ''/downloads/matrix/matrix.mkv'')) (Some (VInt 1500000000))
       None None None season None"

definition example_store :: "pyval option \<Rightarrow> store" where
  "example_store season = \<lparr>media = [], torrents = [], mediafiles = [example_file season]\<rparr>"

text \<open>
  A session with two Media, one Torrent already linked to the first, and one MediaFile
  of that torrent that refers to the second Media.
\<close>

definition movie_a :: entity where
  "movie_a = Media_create ''movie'' (Some (VStr ''0133093'')) (Some (VStr ''The Matrix''))
               (Some (VInt 1999)) (Some (VBool False))"

definition movie_b :: entity where
  "movie_b = Media_create ''movie'' (Some (VStr ''0234215'')) (Some (VStr ''The Matrix Reloaded''))
               (Some (VInt 2003)) (Some (VBool False))"

definition linked_torrent :: entity where
  "linked_torrent =
     [(''id'', Some (VInt 1)), (''media_id'', Some (VStr ''0133093'')),
      (''path'', Some (VStr ''/downloads/matrix'')),
      (''torrent_title'', Some (VStr ''The Matrix'')), (''torrent_year'', Some (VInt 1999))]"

definition file_of_b :: entity where
  "file_of_b =
     (''id'', Some (VInt 1)) #
     MediaFile_create (Some (VStr ''/downloads/matrix/matrix.mkv'')) (Some (VInt 1500000000))
       (Some (VStr ''0234215'')) (Some (VInt 1)) None None None"

definition overwrite_store :: store where
  "overwrite_store =
     \<lparr>media = [movie_a, movie_b], torrents = [linked_torrent], mediafiles = [file_of_b]\<rparr>"

text \<open>
  A session with one Torrent without Media and two of its MediaFiles: the first without
  Media, the second already referring to a Media.
\<close>

definition unlinked_torrent :: entity where
  "unlinked_torrent =
     [(''id'', Some (VInt 1)), (''media_id'', None),
      (''path'', Some (VStr ''/downloads/matrix'')),
      (''torrent_title'', Some (VStr ''The Matrix'')), (''torrent_year'', Some (VInt 1999))]"

definition child_unset :: entity where
  "child_unset =
     (''id'', Some (VInt 1)) #
     MediaFile_create (Some (VStr ''/downloads/matrix/a.mkv'')) (Some (VInt 100))
       None (Some (VInt 1)) None None None"

definition child_set :: entity where
  "child_set =
     (''id'', Some (VInt 2)) #
     MediaFile_create (Some (VStr ''/downloads/matrix/b.mkv'')) (Some (VInt 200))
       (Some (VStr ''0234215'')) (Some (VInt 1)) None None None"

definition fanout_store :: store where
  "fanout_store =
     \<lparr>media = [movie_a, movie_b], torrents = [unlinked_torrent],
      mediafiles = [child_unset, child_set]\<rparr>"

text \<open>
  Two incoming MediaFiles for the file of \<open>example_store\<close>: one built by the library
  scanner for a link that resolves to it, one built by a torrent scan of the same file.
\<close>

definition library_link :: entity where
  "library_link =
     MediaFile_create (Some (VStr ''/downloads/matrix/matrix.mkv'')) (Some (VInt 1500000000))
       (Some (VStr ''0133093'')) None
       (Some (VStr ''/library/movies/The Matrix (1999) {imdb-tt0133093}/The Matrix.mkv''))
       None None"

definition rescanned_file :: entity where
  "rescanned_file =
     MediaFile_create (Some (VStr ''/downloads/matrix/matrix.mkv'')) (Some (VInt 1500000000))
       None (Some (VInt 7)) None (Some (VStr ''01'')) None"


section \<open>Unique file names (utils/utils.py)\<close>

text \<open>
  A \<^verbatim>\<open>pathlib.Path\<close> is modelled by its two parts: the parent directory and the final
  component. \<^verbatim>\<open>directory / new_filename\<close> is then the path with that parent and that
  final component (the new file name is never empty and contains no separator). The
  file system is the list of the paths that exist.
\<close>

datatype path = Path (parent: string) (name: string)

type_synonym filesystem = "path list"

definition path_exists :: "filesystem \<Rightarrow> path \<Rightarrow> bool" where
  "path_exists fs p = (p \<in> set fs)"

text \<open>
  \<^verbatim>\<open>name.rfind('.')\<close>, and \<^verbatim>\<open>Path.suffix\<close> and \<^verbatim>\<open>Path.stem\<close> as pathlib defines them for
  the Python versions the package supports (3.10 to 3.13): the suffix starts at the
  last dot of the final component, unless that dot is its first or its last character.
\<close>

fun rfind_dot :: "string \<Rightarrow> nat option" where
  "rfind_dot [] = None"
| "rfind_dot (c # cs) =
     (case rfind_dot cs of
        Some i \<Rightarrow> Some (Suc i)
      | None \<Rightarrow> if c = CHR ''.'' then Some 0 else None)"

definition suffix :: "path \<Rightarrow> string" where
  "suffix p =
     (case rfind_dot (name p) of
        Some i \<Rightarrow> if 0 < i \<and> i + 1 < length (name p) then drop i (name p) else []
      | None \<Rightarrow> [])"

definition stem :: "path \<Rightarrow> string" where
  "stem p =
     (case rfind_dot (name p) of
        Some i \<Rightarrow> if 0 < i \<and> i + 1 < length (name p) then take i (name p) else name p
      | None \<Rightarrow> name p)"

text \<open>The value returned: a full path, or only the file name.\<close>

datatype filename_result = FullPath path | FileName string

text \<open>\<^verbatim>\<open>f"{base_name} - v{version}{extension}"\<close>.\<close>

definition versioned_filename :: "string \<Rightarrow> nat \<Rightarrow> string \<Rightarrow> string" where
  "versioned_filename base_name version extension =
     base_name @ '' - v'' @ str_nat version @ extension"

text \<open>
  The \<^verbatim>\<open>while True\<close> loop of \<^verbatim>\<open>get_unique_filename\<close>. It has no exit other than a
  free name, so it is a partial function: \<open>None\<close> stands for a loop that never returns.
\<close>

partial_function (option) version_loop ::
  "filesystem \<Rightarrow> string \<Rightarrow> string \<Rightarrow> string \<Rightarrow> bool \<Rightarrow> nat \<Rightarrow> filename_result option" where
  "version_loop fs directory base_name extension return_full_path version =
     (if \<not> path_exists fs (Path directory (versioned_filename base_name version extension))
      then Some (if return_full_path
                 then FullPath (Path directory (versioned_filename base_name version extension))
                 else FileName (versioned_filename base_name version extension))
      else version_loop fs directory base_name extension return_full_path (version + 1))"

declare version_loop.simps [code]

definition get_unique_filename :: "filesystem \<Rightarrow> path \<Rightarrow> bool \<Rightarrow> filename_result option" where
  "get_unique_filename fs base_path return_full_path =
     (if \<not> path_exists fs base_path
      then Some (if return_full_path then FullPath base_path else FileName (name base_path))
      else version_loop fs (parent base_path) (stem base_path) (suffix base_path)
             return_full_path 2)"

text \<open>The versioned sibling of a path, and the example of the symlink naming collision.\<close>

definition versioned_path :: "path \<Rightarrow> nat \<Rightarrow> path" where
  "versioned_path p n = Path (parent p) (versioned_filename (stem p) n (suffix p))"

definition episode_link :: path where
  "episode_link = Path ''/library/shows/Show (2020) {imdb-tt1}''
                    ''Show (2020) {imdb-tt1} - s01e01.mkv''"


text \<open>The number that a decimal numeral denotes; it inverts \<open>str_nat\<close>.\<close>

definition decimal_value :: "string \<Rightarrow> nat" where
  "decimal_value cs = foldl (\<lambda>a c. 10 * a + (of_char c - 48)) 0 cs"


section \<open>The filename parser (services/parser.py)\<close>

datatype exn = ValueError | RuntimeError

text \<open>
  The character classes of Python's \<^verbatim>\<open>re\<close> on text, for the characters below 256:
  \<^verbatim>\<open>\s\<close> (the characters that \<^verbatim>\<open>str.strip\<close> removes as well) and \<^verbatim>\<open>\d\<close>.
\<close>

definition is_space :: "char \<Rightarrow> bool" where
  "is_space c =
     (let n = (of_char c :: nat)
      in (9 \<le> n \<and> n \<le> 13) \<or> (28 \<le> n \<and> n \<le> 32) \<or> n = 133 \<or> n = 160)"

definition is_digit :: "char \<Rightarrow> bool" where
  "is_digit c = (let n = (of_char c :: nat) in 48 \<le> n \<and> n \<le> 57)"

definition newline :: char where
  "newline = CHR 0x0A"

text \<open>\<^verbatim>\<open>str.strip()\<close>.\<close>

definition strip :: "string \<Rightarrow> string" where
  "strip s = dropWhile is_space (rev (dropWhile is_space (rev s)))"

text \<open>
  The part of \<^verbatim>\<open>media_pattern\<close> after the title,
  \<^verbatim>\<open>\s*\((?P<year>\d{4})\)\s*\{imdb-tt(?P<imdb_id>\d+)\}$\<close>, matched at the start of
  a text. Each greedy repetition is followed by a character outside its class, so the
  longest run is the only candidate. \<^verbatim>\<open>$\<close> matches at the end of the text and
  before a newline that ends it.
\<close>

definition match_tail :: "string \<Rightarrow> (string \<times> string) option" where
  "match_tail s =
     (case dropWhile is_space s of
        c0 # y1 # y2 # y3 # y4 # c5 # rest \<Rightarrow>
          if c0 = CHR ''('' \<and> is_digit y1 \<and> is_digit y2 \<and> is_digit y3 \<and> is_digit y4 \<and>
             c5 = CHR '')''
          then (let r = dropWhile is_space rest
                in if take 8 r = ''{imdb-tt''
                   then (let ds = takeWhile is_digit (drop 8 r);
                             after = dropWhile is_digit (drop 8 r)
                         in if ds \<noteq> [] \<and> (after = ''}'' \<or> after = [CHR ''}'', newline])
                            then Some ([y1, y2, y3, y4], ds)
                            else None)
                   else None)
          else None
      | _ \<Rightarrow> None)"

text \<open>
  \<^verbatim>\<open>media_pattern.search(name)\<close>: the pattern is anchored at the start, and the lazy
  \<^verbatim>\<open>(?P<title>.*?)\<close> tries the shortest title first and grows it by one character,
  which must not be a newline, while the rest does not match.
\<close>

fun media_match :: "string \<Rightarrow> string \<Rightarrow> (string \<times> string \<times> string) option" where
  "media_match title [] =
     (case match_tail [] of
        Some (year, imdb_id) \<Rightarrow> Some (title, year, imdb_id)
      | None \<Rightarrow> None)"
| "media_match title (c # cs) =
     (case match_tail (c # cs) of
        Some (year, imdb_id) \<Rightarrow> Some (title, year, imdb_id)
      | None \<Rightarrow> if c = newline then None else media_match (title @ [c]) cs)"

text \<open>\<^verbatim>\<open>Parser.parse_media\<close>: the dictionary of title, year and imdb_id, or ValueError.\<close>

definition parse_media :: "path \<Rightarrow> exn + pydict" where
  "parse_media media_path =
     (case media_match [] (name media_path) of
        None \<Rightarrow> Inl ValueError
      | Some (title, year, imdb_id) \<Rightarrow>
          Inr [(''title'', Some (VStr (strip title))),
               (''year'', Some (VStr year)),
               (''imdb_id'', Some (VStr imdb_id))])"

text \<open>A library name \<open>Title (Year) {imdb-ttID}\<close>.\<close>

definition library_name :: "string \<Rightarrow> string \<Rightarrow> string \<Rightarrow> string" where
  "library_name title year imdb_id = title @ '' ('' @ year @ '') {imdb-tt'' @ imdb_id @ ''}''"

text \<open>A text contains a bracketed ID segment \<open>{imdb-ttDIGITS}\<close> somewhere.\<close>

definition has_id_segment :: "string \<Rightarrow> bool" where
  "has_id_segment s =
     (\<exists>before ds after. s = before @ ''{imdb-tt'' @ ds @ ''}'' @ after \<and>
                         ds \<noteq> [] \<and> (\<forall>c\<in>set ds. is_digit c))"


subsection \<open>Torrent names\<close>

text \<open>
  The external parser \<^verbatim>\<open>PTT.parse_title\<close> is a parameter: a function from a name to
  the structure it returns. The fields are the keys the code reads with \<^verbatim>\<open>.get\<close>;
  an absent key and a \<^verbatim>\<open>None\<close> value both read as \<open>None\<close>. Title and year are
  single values; \<^verbatim>\<open>seasons\<close>, \<^verbatim>\<open>episodes\<close> and \<^verbatim>\<open>episode\<close> are ordered lists.
\<close>

record parsed_title =
  ptt_title :: "pyval option"
  ptt_year :: "pyval option"
  ptt_seasons :: "pyval list option"
  ptt_episodes :: "pyval list option"
  ptt_episode :: "pyval list option"

text \<open>Truthiness of a list that may be \<^verbatim>\<open>None\<close>: it is there and not empty.\<close>

fun truthy_list :: "pyval list option \<Rightarrow> bool" where
  "truthy_list None = False"
| "truthy_list (Some xs) = (xs \<noteq> [])"

text \<open>\<^verbatim>\<open>Parser._determine_media_type\<close>.\<close>

definition determine_media_type :: "parsed_title \<Rightarrow> string" where
  "determine_media_type parsed_data =
     (if truthy_list (ptt_seasons parsed_data) \<or> truthy_list (ptt_episode parsed_data)
      then ''show'' else ''movie'')"

text \<open>\<^verbatim>\<open>Parser.parse_torrent\<close>: the dictionary of title, year and kind, or ValueError.\<close>

record torrent_info =
  info_title :: "pyval option"
  info_year :: "pyval option"
  info_kind :: string

definition parse_torrent :: "(string \<Rightarrow> parsed_title) \<Rightarrow> path \<Rightarrow> exn + torrent_info" where
  "parse_torrent parse_title torrent_path =
     (let parsed_torrent = parse_title (name torrent_path);
          title = ptt_title parsed_torrent;
          year = ptt_year parsed_torrent;
          kind = determine_media_type parsed_torrent
      in if \<not> truthy title then Inl ValueError
         else Inr \<lparr>info_title = title, info_year = year, info_kind = kind\<rparr>)"

text \<open>
  \<^verbatim>\<open>Parser.parse_torrent_episode\<close>: the first season and the first episode. A list
  is truthy when it is not empty, so \<^verbatim>\<open>season[0]\<close> and \<^verbatim>\<open>episode[0]\<close> are read from
  non-empty lists only.
\<close>

definition parse_torrent_episode ::
  "(string \<Rightarrow> parsed_title) \<Rightarrow> string \<Rightarrow> pyval option \<times> pyval option" where
  "parse_torrent_episode parse_title file_name =
     (let parsed_file = parse_title file_name;
          season = ptt_seasons parsed_file;
          episode = ptt_episodes parsed_file
      in case (season, episode) of
           (Some (s0 # _), Some (e0 # _)) \<Rightarrow> (Some s0, Some e0)
         | (_, Some (e0 # _)) \<Rightarrow> (None, Some e0)
         | _ \<Rightarrow> (None, None))"

text \<open>
  \<^verbatim>\<open>Parser.extract_media_episode\<close>: \<^verbatim>\<open>re.search\<close> of \<^verbatim>\<open>[sS](\d+)[eE](\d+)\<close>, the
  leftmost match. At one position the pattern matches in at most one way: each run of
  digits is followed by a character that is not a digit.
\<close>

definition match_episode_at :: "string \<Rightarrow> (string \<times> string) option" where
  "match_episode_at s =
     (case s of
        [] \<Rightarrow> None
      | c # cs \<Rightarrow>
          if c = CHR ''s'' \<or> c = CHR ''S''
          then (case dropWhile is_digit cs of
                  [] \<Rightarrow> None
                | e # r \<Rightarrow>
                    if takeWhile is_digit cs \<noteq> [] \<and> (e = CHR ''e'' \<or> e = CHR ''E'') \<and>
                       takeWhile is_digit r \<noteq> []
                    then Some (takeWhile is_digit cs, takeWhile is_digit r)
                    else None)
          else None)"

fun extract_media_episode :: "string \<Rightarrow> pyval option \<times> pyval option" where
  "extract_media_episode [] = (None, None)"
| "extract_media_episode (c # cs) =
     (case match_episode_at (c # cs) of
        Some (season, episode) \<Rightarrow> (Some (VStr season), Some (VStr episode))
      | None \<Rightarrow> extract_media_episode cs)"

section \<open>The identity resolver (services/resolver.py)\<close>

text \<open>
  The search service \<^verbatim>\<open>Cinemagoer.search_movie\<close> is a parameter: given the query it
  returns the results in order, or \<open>None\<close> when the call raises. To tell whether the
  service was contacted, \<^verbatim>\<open>get_imdb_id\<close> returns the list of the queries it sent
  beside its outcome.
\<close>

record search_result =
  result_kind :: "string option"
  movieID :: string

definition SHOW_TYPES :: "string list" where
  "SHOW_TYPES = [''tv series'', ''tv mini series'']"

definition VALID_TYPES :: "string list" where
  "VALID_TYPES = [''movie'', ''show'']"

definition result_type :: "search_result \<Rightarrow> string" where
  "result_type result =
     (case result_kind result of
        None \<Rightarrow> ''movie''
      | Some k \<Rightarrow> if k \<in> set SHOW_TYPES then ''show'' else ''movie'')"

fun first_of_kind :: "string \<Rightarrow> search_result list \<Rightarrow> string option" where
  "first_of_kind kind [] = None"
| "first_of_kind kind (result # results) =
     (if result_type result = kind then Some (movieID result) else first_of_kind kind results)"

definition get_imdb_id ::
  "(string \<Rightarrow> search_result list option) \<Rightarrow> pyval option \<Rightarrow> pyval option \<Rightarrow> string \<Rightarrow>
   (exn + string option) \<times> string list" where
  "get_imdb_id search_movie title year kind =
     (if \<not> truthy title then (Inl ValueError, [])
      else if kind \<notin> set VALID_TYPES then (Inl ValueError, [])
      else (let search_str = py_str title @ '' '' @ (if truthy year then py_str year else '''')
            in case search_movie search_str of
                 None \<Rightarrow> (Inl RuntimeError, [search_str])
               | Some results \<Rightarrow> (Inr (first_of_kind kind results), [search_str])))"

text \<open>A search service with two results for every query.\<close>

definition example_search :: "string \<Rightarrow> search_result list option" where
  "example_search query =
     Some [\<lparr>result_kind = Some ''tv series'', movieID = ''0944947''\<rparr>,
           \<lparr>result_kind = Some ''movie'', movieID = ''0133093''\<rparr>]"


text \<open>Two parsers for the examples: one finds a title and a season, one finds nothing.\<close>

definition show_parse_title :: "string \<Rightarrow> parsed_title" where
  "show_parse_title n =
     \<lparr>ptt_title = Some (VStr ''Game of Thrones''), ptt_year = Some (VInt 2011),
      ptt_seasons = Some [VInt 1], ptt_episodes = None, ptt_episode = None\<rparr>"

definition empty_parse_title :: "string \<Rightarrow> parsed_title" where
  "empty_parse_title n =
     \<lparr>ptt_title = None, ptt_year = None, ptt_seasons = None, ptt_episodes = None,
      ptt_episode = None\<rparr>"


section \<open>The scanners (scanners/library_scanner.py, scanners/torrent_scanner.py)\<close>

text \<open>
  A file found by \<^verbatim>\<open>get_media_files\<close> or \<^verbatim>\<open>get_torrent_files\<close> is a \<^verbatim>\<open>Path\<close> object;
  the scanners read from it the text \<^verbatim>\<open>str(file)\<close>, its final component, whether it
  is a symbolic link, the text of \<^verbatim>\<open>file.resolve()\<close> and the size \<^verbatim>\<open>file.stat().st_size\<close>.
  The list of files found is a parameter of the indexing functions.
\<close>

record scanned_file =
  file_str :: string
  file_name :: string
  is_symlink :: bool
  resolve :: string
  st_size :: int

subsection \<open>LibraryScanner.index_media\<close>

text \<open>The body of the loop over the files: the MediaFile built for one file.\<close>

definition library_media_file :: "pyval option \<Rightarrow> scanned_file \<Rightarrow> entity" where
  "library_media_file imdb_id file =
     (let symlink_path = file_str file;
          target_path = py_str (if is_symlink file then Some (VStr (resolve file)) else None);
          file_size = st_size file;
          (season, episode) = extract_media_episode symlink_path
      in MediaFile_create (Some (VStr target_path)) (Some (VInt file_size)) imdb_id None
           (Some (VStr symlink_path)) season episode)"

fun index_media_files :: "store \<Rightarrow> pyval option \<Rightarrow> scanned_file list \<Rightarrow> store" where
  "index_media_files repo imdb_id [] = repo"
| "index_media_files repo imdb_id (file # files) =
     index_media_files (fst (MediaFileHandler_add repo (library_media_file imdb_id file)))
       imdb_id files"

definition index_media ::
  "store \<Rightarrow> scanned_file list \<Rightarrow> string \<Rightarrow> pyval option \<Rightarrow> pyval option \<Rightarrow> pyval option \<Rightarrow>
   pyval option \<Rightarrow> store" where
  "index_media repo files kind imdb_id title year anime =
     (case MediaHandler_get_by_id repo imdb_id of
        Some existing \<Rightarrow> repo
      | None \<Rightarrow>
          index_media_files (fst (MediaHandler_add repo (Media_create kind imdb_id title year anime)))
            imdb_id files)"

subsection \<open>TorrentScanner.index_torrent\<close>

text \<open>
  \<^verbatim>\<open>max(files, key=lambda file: Path(file).stat().st_size)\<close>: the first file of the
  largest size; on an empty list \<^verbatim>\<open>max\<close> raises ValueError.
\<close>

fun max_by_size :: "scanned_file \<Rightarrow> scanned_file list \<Rightarrow> scanned_file" where
  "max_by_size best [] = best"
| "max_by_size best (file # files) =
     max_by_size (if st_size file > st_size best then file else best) files"

text \<open>The MediaFile built for a file of a torrent.\<close>

definition torrent_media_file ::
  "pyval option \<Rightarrow> scanned_file \<Rightarrow> pyval option \<Rightarrow> pyval option \<Rightarrow> entity" where
  "torrent_media_file torrent_id file season episode =
     MediaFile_create (Some (VStr (file_str file))) (Some (VInt (st_size file))) None torrent_id
       None season episode"

text \<open>
  The loop of the show branch. \<open>ti\<close> is the address of the torrent; \<^verbatim>\<open>torrent.id\<close> is
  read from the session at each file.
\<close>

fun index_show_files ::
  "store \<Rightarrow> (string \<Rightarrow> parsed_title) \<Rightarrow> nat \<Rightarrow> scanned_file list \<Rightarrow> store" where
  "index_show_files repo parse_title ti [] = repo"
| "index_show_files repo parse_title ti (file # files) =
     (let (season, episode) = parse_torrent_episode parse_title (file_name file)
      in if truthy season \<and> truthy episode
         then index_show_files
                (fst (MediaFileHandler_add repo
                        (torrent_media_file (getattr (torrents repo ! ti) ''id'') file
                           season episode)))
                parse_title ti files
         else index_show_files repo parse_title ti files)"

text \<open>
  \<^verbatim>\<open>index_torrent\<close>. An exception leaves the \<^verbatim>\<open>with Repository\<close> block through a
  rollback, so the outcome is the exception alone.
\<close>

definition index_torrent ::
  "store \<Rightarrow> (string \<Rightarrow> parsed_title) \<Rightarrow> string \<Rightarrow> scanned_file list \<Rightarrow> string \<Rightarrow>
   pyval option \<Rightarrow> pyval option \<Rightarrow> exn + store" where
  "index_torrent repo parse_title torrent_path files kind title year =
     (let (repo1, ti) = TorrentHandler_add repo (Torrent_new (Some (VStr torrent_path)) title year)
      in if kind = ''movie''
         then (case files of
                 [] \<Rightarrow> Inl ValueError
               | file # rest \<Rightarrow>
                   (let target_path = max_by_size file rest
                    in Inr (fst (MediaFileHandler_add repo1
                                   (torrent_media_file (getattr (torrents repo1 ! ti) ''id'')
                                      target_path None None)))))
         else Inr (index_show_files repo1 parse_title ti files))"

subsection \<open>Example files\<close>

definition empty_store :: store where
  "empty_store = \<lparr>media = [], torrents = [], mediafiles = []\<rparr>"

text \<open>A regular file and a symbolic link in the library.\<close>

definition regular_file :: scanned_file where
  "regular_file =
     \<lparr>file_str = ''/library/shows/Show (2020) {imdb-tt1}/Show (2020) - s01e05.mkv'',
      file_name = ''Show (2020) - s01e05.mkv'', is_symlink = False,
      resolve = ''/library/shows/Show (2020) {imdb-tt1}/Show (2020) - s01e05.mkv'',
      st_size = 700\<rparr>"

definition linked_file :: scanned_file where
  "linked_file =
     \<lparr>file_str = ''/library/shows/Show (2020) {imdb-tt1}/Show (2020) - s01e06.mkv'',
      file_name = ''Show (2020) - s01e06.mkv'', is_symlink = True,
      resolve = ''/downloads/Show.S01/Show.S01E06.mkv'',
      st_size = 800\<rparr>"

text \<open>A torrent directory with three files of 100, 200 and 50 bytes.\<close>

definition sized_file :: "string \<Rightarrow> int \<Rightarrow> scanned_file" where
  "sized_file n bytes =
     \<lparr>file_str = ''/downloads/matrix/'' @ n, file_name = n, is_symlink = False,
      resolve = ''/downloads/matrix/'' @ n, st_size = bytes\<rparr>"

definition three_files :: "scanned_file list" where
  "three_files = [sized_file ''a.mkv'' 100, sized_file ''b.mkv'' 200, sized_file ''c.mkv'' 50]"

text \<open>A parser that finds season 1 and episode 2 in names that start with an \<open>S\<close> only.\<close>

definition episode_parse_title :: "string \<Rightarrow> parsed_title" where
  "episode_parse_title n =
     (if take 1 n = ''S''
      then \<lparr>ptt_title = Some (VStr ''Show''), ptt_year = None, ptt_seasons = Some [VInt 1],
            ptt_episodes = Some [VInt 2], ptt_episode = None\<rparr>
      else \<lparr>ptt_title = Some (VStr ''Show''), ptt_year = None, ptt_seasons = None,
            ptt_episodes = None, ptt_episode = None\<rparr>)"

definition two_episode_files :: "scanned_file list" where
  "two_episode_files = [sized_file ''S01E02.mkv'' 300, sized_file ''extras.mkv'' 400]"


text \<open>A parser that reads season 0 and episode 1 (a special) from every name.\<close>

definition special_parse_title :: "string \<Rightarrow> parsed_title" where
  "special_parse_title n =
     \<lparr>ptt_title = Some (VStr ''Show''), ptt_year = None, ptt_seasons = Some [VInt 0],
      ptt_episodes = Some [VInt 1], ptt_episode = None\<rparr>"

definition special_file :: scanned_file where
  "special_file = sized_file ''Show.S00E01.mkv'' 300"


text \<open>
  A parser result with a title and an episode list but no season, as for a name like
  \<open>Show.E05\<close>; and a parser result that holds season 0 and episode 1 as texts.
\<close>

definition episodes_only_parse_title :: "string \<Rightarrow> parsed_title" where
  "episodes_only_parse_title n =
     \<lparr>ptt_title = Some (VStr ''Show''), ptt_year = None, ptt_seasons = None,
      ptt_episodes = Some [VInt 5], ptt_episode = None\<rparr>"

definition text_special_parse_title :: "string \<Rightarrow> parsed_title" where
  "text_special_parse_title n =
     \<lparr>ptt_title = Some (VStr ''Show''), ptt_year = None, ptt_seasons = Some [VStr ''00''],
      ptt_episodes = Some [VStr ''01''], ptt_episode = None\<rparr>"


section \<open>Fill-only update\<close>

lemma getattr_setattr:
  "getattr (setattr e key v) k = (if k = key then v else getattr e k)"
  by (simp add: getattr_def setattr_def dict_get_def update_conv')

lemma update_keeps_set:
  "getattr e k \<noteq> None \<Longrightarrow> getattr (EntityHandler_update e kwargs) k = getattr e k"
proof (induction kwargs arbitrary: e)
  case Nil
  show ?case by simp
next
  case (Cons kv kwargs)
  obtain key v where kv: "kv = (key, v)" by (cases kv)
  let ?e = "if getattr e key = None then setattr e key v else e"
  have same: "getattr ?e k = getattr e k"
    using Cons.prems by (auto simp: getattr_setattr)
  with Cons.prems have "getattr ?e k \<noteq> None" by simp
  from Cons.IH [OF this] same show ?case by (simp add: kv)
qed

lemma update_absent_key:
  "k \<notin> fst ` set kwargs \<Longrightarrow> getattr (EntityHandler_update e kwargs) k = getattr e k"
proof (induction kwargs arbitrary: e)
  case Nil
  show ?case by simp
next
  case (Cons kv kwargs)
  obtain key v where kv: "kv = (key, v)" by (cases kv)
  from Cons.prems kv have ne: "k \<noteq> key" and rest: "k \<notin> fst ` set kwargs" by auto
  let ?e = "if getattr e key = None then setattr e key v else e"
  have "getattr ?e k = getattr e k" using ne by (simp add: getattr_setattr)
  with Cons.IH [OF rest, of ?e] show ?case by (simp add: kv)
qed

lemma dict_get_absent: "k \<notin> fst ` set d \<Longrightarrow> dict_get d k = None"
  by (simp add: dict_get_def map_of_eq_None_iff [THEN iffD2])

lemma update_fills:
  "distinct (map fst kwargs) \<Longrightarrow> getattr e k = None \<Longrightarrow>
   getattr (EntityHandler_update e kwargs) k = dict_get kwargs k"
proof (induction kwargs arbitrary: e)
  case Nil
  then show ?case by (simp add: dict_get_def)
next
  case (Cons kv kwargs)
  obtain key v where kv: "kv = (key, v)" by (cases kv)
  from Cons.prems(1) kv have fresh: "key \<notin> fst ` set kwargs" and d: "distinct (map fst kwargs)"
    by auto
  let ?e = "if getattr e key = None then setattr e key v else e"
  show ?case
  proof (cases "k = key")
    case True
    with Cons.prems(2) have e': "getattr ?e k = v" by (simp add: getattr_setattr)
    from fresh True have "getattr (EntityHandler_update ?e kwargs) k = getattr ?e k"
      by (intro update_absent_key) simp
    with e' True show ?thesis by (simp add: kv dict_get_def)
  next
    case False
    with Cons.prems(2) have "getattr ?e k = None" by (simp add: getattr_setattr)
    from Cons.IH [OF d this] False show ?thesis by (simp add: kv dict_get_def)
  qed
qed

lemma MediaFileHandler_update_target:
  assumes "i < length (mediafiles s)"
  shows "mediafiles (MediaFileHandler_update s i kwargs) ! i =
         EntityHandler_update (mediafiles s ! i) kwargs"
  using assms
  by (simp add: MediaFileHandler_update_def Let_def split: option.split)

lemma propagate_torrents: "torrents (propagate_media_id_to_files s i) = torrents s"
  by (simp add: propagate_media_id_to_files_def Let_def)

lemma TorrentHandler_update_target:
  assumes "i < length (torrents s)"
  shows "torrents (TorrentHandler_update s i kwargs) ! i =
         EntityHandler_update (torrents s ! i) kwargs"
  using assms
  by (simp add: TorrentHandler_update_def Let_def propagate_torrents)

lemma MediaHandler_update_target:
  assumes "i < length (media s)"
  shows "media (MediaHandler_update s i kwargs) ! i =
         EntityHandler_update (media s ! i) kwargs"
  using assms by (simp add: MediaHandler_update_def)

lemma fill_only_attr:
  assumes "distinct (map fst kwargs)"
  shows "getattr (EntityHandler_update e kwargs) k =
         (if getattr e k = None then dict_get kwargs k else getattr e k)"
  using assms by (simp add: update_fills update_keeps_set)

text \<open>
  Claim C1. For each of the three kinds of entity, after a store update the target
  entity's attribute \<open>k\<close> is the keyword argument's value when the attribute was
  \<^verbatim>\<open>None\<close> before (and stays \<^verbatim>\<open>None\<close> when no such argument was given), and is its
  previous value when the attribute was already set. The keyword arguments form a
  dictionary: their keys are distinct.
\<close>

theorem fill_only_update:
  assumes "distinct (map fst kwargs)"
  shows "(i < length (media s) \<longrightarrow>
           getattr (media (MediaHandler_update s i kwargs) ! i) k =
             (if getattr (media s ! i) k = None then dict_get kwargs k
              else getattr (media s ! i) k)) \<and>
         (i < length (torrents s) \<longrightarrow>
           getattr (torrents (TorrentHandler_update s i kwargs) ! i) k =
             (if getattr (torrents s ! i) k = None then dict_get kwargs k
              else getattr (torrents s ! i) k)) \<and>
         (i < length (mediafiles s) \<longrightarrow>
           getattr (mediafiles (MediaFileHandler_update s i kwargs) ! i) k =
             (if getattr (mediafiles s ! i) k = None then dict_get kwargs k
              else getattr (mediafiles s ! i) k))"
  using assms
  by (simp add: MediaHandler_update_target TorrentHandler_update_target
        MediaFileHandler_update_target fill_only_attr)

text \<open>
  The example of the claim: a MediaFile with unset season is updated with season
  \<^verbatim>\<open>"01"\<close>, which sets it; the same file with season \<^verbatim>\<open>"01"\<close> updated with
  \<^verbatim>\<open>"02"\<close> keeps \<^verbatim>\<open>"01"\<close>.
\<close>

theorem fill_only_update_witness:
  "getattr (mediafiles (MediaFileHandler_update (example_store None) 0
              [(''season'', Some (VStr ''01''))]) ! 0) ''season'' = Some (VStr ''01'') \<and>
   getattr (mediafiles (MediaFileHandler_update (example_store (Some (VStr ''01''))) 0
              [(''season'', Some (VStr ''02''))]) ! 0) ''season'' = Some (VStr ''01'')"
proof -
  have d1: "distinct (map fst [(''season'', Some (VStr ''01''))])" by simp
  have d2: "distinct (map fst [(''season'', Some (VStr ''02''))])" by simp
  have g: "getattr (example_file v) ''season'' = v" for v
    by (simp add: example_file_def MediaFile_create_def getattr_def dict_get_def)
  show ?thesis
    using fill_only_update [OF d1, of 0 "example_store None" "''season''"]
          fill_only_update [OF d2, of 0 "example_store (Some (VStr ''01''))" "''season''"]
    by (simp add: example_store_def g dict_get_def)
qed

section \<open>MediaFile upsert\<close>

lemma first_index_Some:
  "first_index P xs = Some j \<Longrightarrow> j < length xs \<and> P (xs ! j) \<and> (\<forall>i<j. \<not> P (xs ! i))"
proof (induction xs arbitrary: j)
  case Nil
  then show ?case by simp
next
  case (Cons x xs)
  show ?case
  proof (cases "P x")
    case True
    with Cons.prems show ?thesis by simp
  next
    case False
    with Cons.prems obtain j' where j': "first_index P xs = Some j'" "j = Suc j'"
      by auto
    from Cons.IH [OF j'(1)] False j'(2) show ?thesis
      by (auto simp: nth_Cons split: nat.splits)
  qed
qed

lemma first_index_None: "first_index P xs = None \<Longrightarrow> \<forall>x\<in>set xs. \<not> P x"
  by (induction xs) (auto split: if_splits)

lemma MediaFileHandler_update_mediafiles:
  "mediafiles (MediaFileHandler_update s i kwargs) =
   (mediafiles s)[i := EntityHandler_update (mediafiles s ! i) kwargs]"
  by (simp add: MediaFileHandler_update_def Let_def split: option.split)

lemma dict_get_extract_attributes:
  "distinct (map fst e) \<Longrightarrow>
   dict_get (extract_attributes e) k = (if startswith_underscore k then None else getattr e k)"
proof (induction e)
  case Nil
  show ?case by (simp add: extract_attributes_def dict_get_def getattr_def)
next
  case (Cons kv e)
  obtain key v where kv: "kv = (key, v)" by (cases kv)
  from Cons.prems kv have fresh: "key \<notin> fst ` set e" and d: "distinct (map fst e)" by auto
  have ih: "dict_get (extract_attributes e) k =
            (if startswith_underscore k then None else getattr e k)"
    by (rule Cons.IH [OF d])
  show ?case
  proof (cases "k = key")
    case True
    with fresh have "getattr e k = None" by (simp add: getattr_def dict_get_absent)
    with ih have rest: "dict_get (extract_attributes e) k = None" by simp
    show ?thesis
    proof (cases "\<not> startswith_underscore key \<and> v \<noteq> None")
      case True
      with \<open>k = key\<close> show ?thesis
        by (simp add: extract_attributes_def dict_get_def getattr_def kv)
    next
      case False
      then have "extract_attributes (kv # e) = extract_attributes e"
        by (simp add: extract_attributes_def kv)
      with rest False \<open>k = key\<close> show ?thesis
        by (auto simp: getattr_def dict_get_def kv)
    qed
  next
    case False
    then have "dict_get (extract_attributes (kv # e)) k = dict_get (extract_attributes e) k"
      by (simp add: extract_attributes_def dict_get_def kv)
    with ih False show ?thesis by (simp add: getattr_def dict_get_def kv)
  qed
qed

lemma distinct_extract_attributes:
  "distinct (map fst e) \<Longrightarrow> distinct (map fst (extract_attributes e))"
  by (simp add: extract_attributes_def distinct_map_filter)

lemma MediaFileHandler_add_cases:
  assumes "distinct (map fst entity)"
  shows "(\<forall>j. MediaFileHandler_get_by_path s
                (py_or (getattr entity ''symlink_path'') (getattr entity ''target_path'')) = Some j
            \<longrightarrow> snd (MediaFileHandler_add s entity) = j \<and> j < length (mediafiles s) \<and>
                length (mediafiles (fst (MediaFileHandler_add s entity))) = length (mediafiles s) \<and>
                (\<forall>i. i \<noteq> j \<longrightarrow> mediafiles (fst (MediaFileHandler_add s entity)) ! i = mediafiles s ! i) \<and>
                (\<forall>k. getattr (mediafiles (fst (MediaFileHandler_add s entity)) ! j) k =
                      (if getattr (mediafiles s ! j) k = None \<and> \<not> startswith_underscore k
                       then getattr entity k else getattr (mediafiles s ! j) k))) \<and>
         (MediaFileHandler_get_by_path s
                (py_or (getattr entity ''symlink_path'') (getattr entity ''target_path'')) = None
            \<longrightarrow> mediafiles (fst (MediaFileHandler_add s entity)) =
                  mediafiles s @ [flush_id (mediafiles s) entity])"
proof (intro conjI allI impI)
  fix j
  assume found: "MediaFileHandler_get_by_path s
                (py_or (getattr entity ''symlink_path'') (getattr entity ''target_path'')) = Some j"
  then have add: "MediaFileHandler_add s entity =
                  (MediaFileHandler_update s j (extract_attributes entity), j)"
    by (simp add: MediaFileHandler_add_def)
  from found have j: "j < length (mediafiles s)"
    by (auto simp: MediaFileHandler_get_by_path_def Let_def dest: first_index_Some)
  show "snd (MediaFileHandler_add s entity) = j" by (simp add: add)
  show "j < length (mediafiles s)" by (rule j)
  show "length (mediafiles (fst (MediaFileHandler_add s entity))) = length (mediafiles s)"
    by (simp add: add MediaFileHandler_update_mediafiles)
  show "mediafiles (fst (MediaFileHandler_add s entity)) ! i = mediafiles s ! i" if "i \<noteq> j" for i
    using that by (simp add: add MediaFileHandler_update_mediafiles)
  show "getattr (mediafiles (fst (MediaFileHandler_add s entity)) ! j) k =
          (if getattr (mediafiles s ! j) k = None \<and> \<not> startswith_underscore k
           then getattr entity k else getattr (mediafiles s ! j) k)" for k
    using j assms
    by (simp add: add MediaFileHandler_update_mediafiles fill_only_attr
          distinct_extract_attributes dict_get_extract_attributes)
next
  assume "MediaFileHandler_get_by_path s
                (py_or (getattr entity ''symlink_path'') (getattr entity ''target_path'')) = None"
  then show "mediafiles (fst (MediaFileHandler_add s entity)) =
               mediafiles s @ [flush_id (mediafiles s) entity]"
    by (simp add: MediaFileHandler_add_def)
qed

lemma first_index_SomeI:
  "j < length xs \<Longrightarrow> P (xs ! j) \<Longrightarrow> \<forall>i<j. \<not> P (xs ! i) \<Longrightarrow> first_index P xs = Some j"
proof (induction xs arbitrary: j)
  case Nil
  then show ?case by simp
next
  case (Cons x xs)
  show ?case
  proof (cases j)
    case 0
    with Cons.prems show ?thesis by simp
  next
    case (Suc j')
    with Cons.prems have nx: "\<not> P x" by auto
    have "first_index P xs = Some j'"
    proof (rule Cons.IH)
      show "j' < length xs" using Cons.prems(1) Suc by simp
      show "P (xs ! j')" using Cons.prems(2) Suc by simp
      show "\<forall>i<j'. \<not> P (xs ! i)"
      proof (intro allI impI)
        fix i assume "i < j'"
        then have "Suc i < j" using Suc by simp
        with Cons.prems(3) have "\<not> P ((x # xs) ! Suc i)" by blast
        then show "\<not> P (xs ! i)" by simp
      qed
    qed
    with nx Suc show ?thesis by simp
  qed
qed

lemma first_index_NoneI: "\<forall>x\<in>set xs. \<not> P x \<Longrightarrow> first_index P xs = None"
  by (induction xs) auto

text \<open>
  Claim C4, as the code has it. \<^verbatim>\<open>MediaFileHandler.add\<close> looks up one text only, the
  incoming entity's symlink path when that is truthy and its target path otherwise.
  If some stored row has that text as its target path or as its symlink path, the
  insert merges into the first such row \<open>j\<close>: that row is returned, no row is added,
  the other rows are untouched, and each attribute of row \<open>j\<close> is filled from the
  incoming entity only when it was \<^verbatim>\<open>None\<close> (attributes whose name starts with an
  underscore are never copied). If no stored row has that text as its target or
  symlink path, the entity is appended as a new row, whatever its other path is.
\<close>

theorem mediafile_add_merges_on_lookup_key:
  assumes "distinct (map fst entity)"
      and "path_str = (if truthy (getattr entity ''symlink_path'')
                       then py_str (getattr entity ''symlink_path'')
                       else py_str (getattr entity ''target_path''))"
  shows "(\<forall>j. j < length (mediafiles s) \<and>
              (getattr (mediafiles s ! j) ''target_path'' = Some (VStr path_str) \<or>
               getattr (mediafiles s ! j) ''symlink_path'' = Some (VStr path_str)) \<and>
              (\<forall>i<j. getattr (mediafiles s ! i) ''target_path'' \<noteq> Some (VStr path_str) \<and>
                     getattr (mediafiles s ! i) ''symlink_path'' \<noteq> Some (VStr path_str))
            \<longrightarrow> snd (MediaFileHandler_add s entity) = j \<and>
                length (mediafiles (fst (MediaFileHandler_add s entity))) = length (mediafiles s) \<and>
                (\<forall>i. i \<noteq> j \<longrightarrow> mediafiles (fst (MediaFileHandler_add s entity)) ! i = mediafiles s ! i) \<and>
                (\<forall>k. getattr (mediafiles (fst (MediaFileHandler_add s entity)) ! j) k =
                      (if getattr (mediafiles s ! j) k = None \<and> \<not> startswith_underscore k
                       then getattr entity k else getattr (mediafiles s ! j) k))) \<and>
         ((\<forall>f\<in>set (mediafiles s).
              getattr f ''target_path'' \<noteq> Some (VStr path_str) \<and>
              getattr f ''symlink_path'' \<noteq> Some (VStr path_str))
            \<longrightarrow> snd (MediaFileHandler_add s entity) = length (mediafiles s) \<and>
                mediafiles (fst (MediaFileHandler_add s entity)) =
                  mediafiles s @ [flush_id (mediafiles s) entity])"
proof (intro conjI allI impI)
  have key: "py_str (py_or (getattr entity ''symlink_path'') (getattr entity ''target_path'')) =
             path_str"
    by (simp add: assms(2) py_or_def)
  {
    fix j
    assume j: "j < length (mediafiles s) \<and>
              (getattr (mediafiles s ! j) ''target_path'' = Some (VStr path_str) \<or>
               getattr (mediafiles s ! j) ''symlink_path'' = Some (VStr path_str)) \<and>
              (\<forall>i<j. getattr (mediafiles s ! i) ''target_path'' \<noteq> Some (VStr path_str) \<and>
                     getattr (mediafiles s ! i) ''symlink_path'' \<noteq> Some (VStr path_str))"
    have "first_index (\<lambda>f. getattr f ''target_path'' = Some (VStr path_str) \<or>
                           getattr f ''symlink_path'' = Some (VStr path_str)) (mediafiles s) = Some j"
      using j by (intro first_index_SomeI) auto
    then have found: "MediaFileHandler_get_by_path s
             (py_or (getattr entity ''symlink_path'') (getattr entity ''target_path'')) = Some j"
      by (simp add: MediaFileHandler_get_by_path_def key)
    note c = MediaFileHandler_add_cases [OF assms(1), of s, THEN conjunct1, rule_format, OF found]
    show "snd (MediaFileHandler_add s entity) = j" using c by blast
    show "length (mediafiles (fst (MediaFileHandler_add s entity))) = length (mediafiles s)"
      using c by blast
    show "mediafiles (fst (MediaFileHandler_add s entity)) ! i = mediafiles s ! i" if "i \<noteq> j" for i
      using c that by blast
    show "getattr (mediafiles (fst (MediaFileHandler_add s entity)) ! j) k =
          (if getattr (mediafiles s ! j) k = None \<and> \<not> startswith_underscore k
           then getattr entity k else getattr (mediafiles s ! j) k)" for k
      using c by blast
  }
  assume none: "\<forall>f\<in>set (mediafiles s).
              getattr f ''target_path'' \<noteq> Some (VStr path_str) \<and>
              getattr f ''symlink_path'' \<noteq> Some (VStr path_str)"
  have "first_index (\<lambda>f. getattr f ''target_path'' = Some (VStr path_str) \<or>
                           getattr f ''symlink_path'' = Some (VStr path_str)) (mediafiles s) = None"
    using none by (intro first_index_NoneI) auto
  then have nf: "MediaFileHandler_get_by_path s
             (py_or (getattr entity ''symlink_path'') (getattr entity ''target_path'')) = None"
    by (simp add: MediaFileHandler_get_by_path_def key)
  then show "snd (MediaFileHandler_add s entity) = length (mediafiles s)"
    by (simp add: MediaFileHandler_add_def)
  from nf show "mediafiles (fst (MediaFileHandler_add s entity)) =
                  mediafiles s @ [flush_id (mediafiles s) entity]"
    by (simp add: MediaFileHandler_add_def)
qed

theorem mediafile_add_merges_on_lookup_key_witness:
  "distinct (map fst rescanned_file) \<and>
   getattr (mediafiles (example_store None) ! 0) ''target_path'' =
     Some (VStr ''/downloads/matrix/matrix.mkv'') \<and>
   snd (MediaFileHandler_add (example_store None) rescanned_file) = 0 \<and>
   length (mediafiles (fst (MediaFileHandler_add (example_store None) rescanned_file))) =
     length (mediafiles (example_store None)) \<and>
   getattr (mediafiles (fst (MediaFileHandler_add (example_store None) rescanned_file)) ! 0)
     ''season'' = Some (VStr ''01'') \<and>
   getattr library_link ''symlink_path'' =
     Some (VStr ''/library/movies/The Matrix (1999) {imdb-tt0133093}/The Matrix.mkv'') \<and>
   mediafiles (fst (MediaFileHandler_add (example_store None) library_link)) =
     mediafiles (example_store None) @ [flush_id (mediafiles (example_store None)) library_link]"
proof -
  have d: "distinct (map fst rescanned_file)" by code_simp
  have p: "''/downloads/matrix/matrix.mkv'' =
           (if truthy (getattr rescanned_file ''symlink_path'')
            then py_str (getattr rescanned_file ''symlink_path'')
            else py_str (getattr rescanned_file ''target_path''))" by code_simp
  have row: "getattr (mediafiles (example_store None) ! 0) ''target_path'' =
             Some (VStr ''/downloads/matrix/matrix.mkv'')" by code_simp
  have h: "0 < length (mediafiles (example_store None)) \<and>
           (getattr (mediafiles (example_store None) ! 0) ''target_path'' =
              Some (VStr ''/downloads/matrix/matrix.mkv'') \<or>
            getattr (mediafiles (example_store None) ! 0) ''symlink_path'' =
              Some (VStr ''/downloads/matrix/matrix.mkv'')) \<and>
           (\<forall>i<0::nat. getattr (mediafiles (example_store None) ! i) ''target_path'' \<noteq>
                          Some (VStr ''/downloads/matrix/matrix.mkv'') \<and>
                        getattr (mediafiles (example_store None) ! i) ''symlink_path'' \<noteq>
                          Some (VStr ''/downloads/matrix/matrix.mkv''))"
    using row by (simp add: example_store_def)
  note m = mediafile_add_merges_on_lookup_key
             [OF d p, of "example_store None", THEN conjunct1, rule_format, OF h]
  have old: "getattr (mediafiles (example_store None) ! 0) ''season'' = None" by code_simp
  have new: "getattr rescanned_file ''season'' = Some (VStr ''01'')" by code_simp
  have nu: "\<not> startswith_underscore ''season''" by code_simp
  from m have season:
    "getattr (mediafiles (fst (MediaFileHandler_add (example_store None) rescanned_file)) ! 0)
       ''season'' = Some (VStr ''01'')"
    using old new nu by simp
  have d2: "distinct (map fst library_link)" by code_simp
  have p2: "''/library/movies/The Matrix (1999) {imdb-tt0133093}/The Matrix.mkv'' =
           (if truthy (getattr library_link ''symlink_path'')
            then py_str (getattr library_link ''symlink_path'')
            else py_str (getattr library_link ''target_path''))" by code_simp
  have sl: "getattr library_link ''symlink_path'' =
     Some (VStr ''/library/movies/The Matrix (1999) {imdb-tt0133093}/The Matrix.mkv'')"
    by code_simp
  have h2: "\<forall>f\<in>set (mediafiles (example_store None)).
              getattr f ''target_path'' \<noteq>
                Some (VStr ''/library/movies/The Matrix (1999) {imdb-tt0133093}/The Matrix.mkv'') \<and>
              getattr f ''symlink_path'' \<noteq>
                Some (VStr ''/library/movies/The Matrix (1999) {imdb-tt0133093}/The Matrix.mkv'')"
    by code_simp
  note a = mediafile_add_merges_on_lookup_key
             [OF d2 p2, of "example_store None", THEN conjunct2, THEN mp, OF h2]
  from d row m season sl a show ?thesis by blast
qed

text \<open>
  The claim as stated fails: the file of \<open>example_store\<close> has the target path of
  \<open>library_link\<close>, but \<open>library_link\<close> carries a symlink path, so only that is looked up,
  nothing is found, and a second record with the same target path is created.
\<close>

theorem mediafile_add_duplicate_target_counterexample:
  "getattr library_link ''target_path'' =
     getattr (mediafiles (example_store None) ! 0) ''target_path'' \<and>
   length (mediafiles (example_store None)) = 1 \<and>
   length (mediafiles (fst (MediaFileHandler_add (example_store None) library_link))) = 2 \<and>
   getattr (mediafiles (fst (MediaFileHandler_add (example_store None) library_link)) ! 1)
     ''target_path'' =
   getattr (mediafiles (fst (MediaFileHandler_add (example_store None) library_link)) ! 0)
     ''target_path''"
  by code_simp

section \<open>Propagation of the Media reference\<close>

text \<open>
  What \<^verbatim>\<open>TorrentHandler.update\<close> does to the files when the torrent's Media reference
  goes from \<^verbatim>\<open>None\<close> to a truthy value: every file of the torrent receives the
  torrent's reference, whatever its own reference was; the other files keep theirs.
\<close>

lemma truthy_not_None: "truthy v \<Longrightarrow> v \<noteq> None"
  by (cases v) auto

lemma fanout_reaches_every_child:
  assumes "i < length (torrents s)"
      and "getattr (torrents s ! i) ''media_id'' = None"
      and "truthy (getattr (EntityHandler_update (torrents s ! i) kwargs) ''media_id'')"
      and "j < length (mediafiles s)"
  shows "getattr (mediafiles (TorrentHandler_update s i kwargs) ! j) ''media_id'' =
         (if in_files (EntityHandler_update (torrents s ! i) kwargs) (mediafiles s ! j)
          then getattr (EntityHandler_update (torrents s ! i) kwargs) ''media_id''
          else getattr (mediafiles s ! j) ''media_id'')"
  using assms truthy_not_None [OF assms(3)]
  by (simp add: TorrentHandler_update_def propagate_media_id_to_files_def Let_def getattr_setattr)

text \<open>
  Claim C2, evaluated. The torrent of \<open>fanout_store\<close> has no Media; its second file
  already refers to Media 0234215. Setting the torrent's Media to 0133093 gives the
  first file that reference, and replaces the reference of the second file as well:
  \<^verbatim>\<open>_propagate_media_id_to_files\<close> assigns to every file of the torrent.
\<close>

theorem torrent_update_overwrites_child_media:
  "getattr (torrents fanout_store ! 0) ''media_id'' = None \<and>
   getattr (mediafiles fanout_store ! 1) ''media_id'' = Some (VStr ''0234215'') \<and>
   getattr (torrents (TorrentHandler_update fanout_store 0
              [(''media_id'', Some (VStr ''0133093''))]) ! 0) ''media_id''
     = Some (VStr ''0133093'') \<and>
   getattr (mediafiles (TorrentHandler_update fanout_store 0
              [(''media_id'', Some (VStr ''0133093''))]) ! 0) ''media_id''
     = Some (VStr ''0133093'') \<and>
   getattr (mediafiles (TorrentHandler_update fanout_store 0
              [(''media_id'', Some (VStr ''0133093''))]) ! 1) ''media_id''
     = Some (VStr ''0133093'')"
  by code_simp

text \<open>
  Claim C3, evaluated. The torrent of \<open>overwrite_store\<close> is linked to Media 0133093; its
  file refers to Media 0234215. Any update of the file, here of its season, writes
  the file's Media reference over the torrent's.
\<close>

theorem mediafile_update_overwrites_torrent_media:
  "getattr (torrents overwrite_store ! 0) ''media_id'' = Some (VStr ''0133093'') \<and>
   getattr (torrents (MediaFileHandler_update overwrite_store 0
              [(''season'', Some (VStr ''01''))]) ! 0) ''media_id''
     = Some (VStr ''0234215'')"
  by code_simp

section \<open>Collision versioning\<close>

lemma digit_char_code: "d < 10 \<Longrightarrow> of_char (digit_char d) = (48 + d :: nat)"
proof -
  assume "d < 10"
  then have "d \<in> {0, 1, 2, 3, 4, 5, 6, 7, 8, 9}" by auto
  then show ?thesis
    by (auto simp: digit_char_def)
qed

lemma decimal_value_str_nat: "decimal_value (str_nat n) = n"
proof (induction n rule: str_nat.induct)
  case (1 n)
  show ?case
  proof (cases "n < 10")
    case True
    then show ?thesis
      by (subst str_nat.simps) (simp add: decimal_value_def digit_char_code)
  next
    case False
    have "n mod 10 < 10" by simp
    with False 1 show ?thesis
      by (subst str_nat.simps) (simp add: decimal_value_def digit_char_code)
  qed
qed

lemma inj_str_nat: "inj str_nat"
  by (rule inj_on_inverseI [where g = decimal_value]) (rule decimal_value_str_nat)

lemma inj_versioned_path: "inj (versioned_path p)"
  by (rule injI) (simp add: versioned_path_def versioned_filename_def inj_str_nat [THEN injD])

lemma free_version_exists: "\<exists>n\<ge>2. \<not> path_exists fs (versioned_path p n)"
proof (rule ccontr)
  assume "\<not> ?thesis"
  then have "versioned_path p ` {2..} \<subseteq> set fs"
    by (auto simp: path_exists_def)
  then have "finite (versioned_path p ` {2..})"
    by (rule finite_subset) simp
  then have "finite ({2..} :: nat set)"
    by (rule finite_imageD) (rule inj_on_subset [OF inj_versioned_path], simp)
  then show False by (simp add: infinite_Ici)
qed

lemma version_loop_finds:
  assumes "\<not> path_exists fs (Path d (versioned_filename b n x))"
      and "\<forall>m. v \<le> m \<and> m < n \<longrightarrow> path_exists fs (Path d (versioned_filename b m x))"
      and "v \<le> n"
  shows "version_loop fs d b x full v =
         Some (if full then FullPath (Path d (versioned_filename b n x))
               else FileName (versioned_filename b n x))"
  using assms
proof (induction "n - v" arbitrary: v)
  case 0
  then have "v = n" by simp
  with 0 show ?case by (subst version_loop.simps) simp
next
  case (Suc k)
  then have lt: "v < n" by simp
  with Suc.prems have taken: "path_exists fs (Path d (versioned_filename b v x))" by simp
  have "version_loop fs d b x full (v + 1) =
         Some (if full then FullPath (Path d (versioned_filename b n x))
               else FileName (versioned_filename b n x))"
    using Suc.hyps(2) Suc.prems lt by (intro Suc.hyps(1)) auto
  with taken show ?case by (subst version_loop.simps) simp
qed

text \<open>
  Claim C6. On a file system with finitely many paths \<^verbatim>\<open>get_unique_filename\<close> always
  returns. If the base path does not exist, it is returned as it is. Otherwise the
  result is the versioned sibling \<open>stem - v{n}suffix\<close> for the least \<open>n\<close> from 2 on
  whose sibling does not exist (every smaller version from 2 on exists). With only the
  exact name taken the result carries \<open>- v2\<close>; with \<open>- v2\<close> taken as well, \<open>- v3\<close>.
\<close>

theorem get_unique_filename_versioning:
  "(\<not> path_exists fs p \<longrightarrow>
      get_unique_filename fs p full = Some (if full then FullPath p else FileName (name p))) \<and>
   (path_exists fs p \<longrightarrow>
      (\<exists>n\<ge>2. \<not> path_exists fs (versioned_path p n) \<and>
              (\<forall>m. 2 \<le> m \<and> m < n \<longrightarrow> path_exists fs (versioned_path p m)) \<and>
              get_unique_filename fs p full =
                Some (if full then FullPath (versioned_path p n)
                      else FileName (name (versioned_path p n))))) \<and>
   (path_exists fs p \<and> \<not> path_exists fs (versioned_path p 2) \<longrightarrow>
      get_unique_filename fs p full =
        Some (if full then FullPath (versioned_path p 2)
              else FileName (stem p @ '' - v2'' @ suffix p))) \<and>
   (path_exists fs p \<and> path_exists fs (versioned_path p 2) \<and>
    \<not> path_exists fs (versioned_path p 3) \<longrightarrow>
      get_unique_filename fs p full =
        Some (if full then FullPath (versioned_path p 3)
              else FileName (stem p @ '' - v3'' @ suffix p)))"
proof (intro conjI impI)
  assume "\<not> path_exists fs p"
  then show "get_unique_filename fs p full = Some (if full then FullPath p else FileName (name p))"
    by (simp add: get_unique_filename_def)
next
  assume taken: "path_exists fs p"
  define n where "n = (LEAST n. 2 \<le> n \<and> \<not> path_exists fs (versioned_path p n))"
  from free_version_exists [of fs p]
  obtain n0 where "2 \<le> n0 \<and> \<not> path_exists fs (versioned_path p n0)" by blast
  then have n: "2 \<le> n \<and> \<not> path_exists fs (versioned_path p n)"
    unfolding n_def by (rule LeastI)
  have below: "path_exists fs (versioned_path p m)" if "2 \<le> m" "m < n" for m
    using that not_less_Least [of m "\<lambda>n. 2 \<le> n \<and> \<not> path_exists fs (versioned_path p n)"]
    by (auto simp: n_def)
  have "get_unique_filename fs p full =
          Some (if full then FullPath (versioned_path p n)
                else FileName (name (versioned_path p n)))"
    using taken n below
    by (simp add: get_unique_filename_def versioned_path_def
          version_loop_finds [where n = n])
  with n below
  show "\<exists>n\<ge>2. \<not> path_exists fs (versioned_path p n) \<and>
              (\<forall>m. 2 \<le> m \<and> m < n \<longrightarrow> path_exists fs (versioned_path p m)) \<and>
              get_unique_filename fs p full =
                Some (if full then FullPath (versioned_path p n)
                      else FileName (name (versioned_path p n)))"
    by blast
next
  assume a: "path_exists fs p \<and> \<not> path_exists fs (versioned_path p 2)"
  have s2: "str_nat 2 = ''2''" by code_simp
  have "version_loop fs (parent p) (stem p) (suffix p) full 2 =
         Some (if full then FullPath (Path (parent p) (versioned_filename (stem p) 2 (suffix p)))
               else FileName (versioned_filename (stem p) 2 (suffix p)))"
    using a by (intro version_loop_finds) (auto simp: versioned_path_def)
  with a show "get_unique_filename fs p full =
        Some (if full then FullPath (versioned_path p 2)
              else FileName (stem p @ '' - v2'' @ suffix p))"
    by (simp add: get_unique_filename_def versioned_path_def versioned_filename_def s2)
next
  assume a: "path_exists fs p \<and> path_exists fs (versioned_path p 2) \<and>
    \<not> path_exists fs (versioned_path p 3)"
  have s3: "str_nat 3 = ''3''" by code_simp
  have two: "m = 2" if "2 \<le> m \<and> m < 3" for m :: nat using that by simp
  have "path_exists fs (Path (parent p) (versioned_filename (stem p) m (suffix p)))"
    if "2 \<le> m \<and> m < 3" for m
    using a two [OF that] by (simp add: versioned_path_def)
  then have "version_loop fs (parent p) (stem p) (suffix p) full 2 =
         Some (if full then FullPath (Path (parent p) (versioned_filename (stem p) 3 (suffix p)))
               else FileName (versioned_filename (stem p) 3 (suffix p)))"
    using a by (intro version_loop_finds) (auto simp: versioned_path_def)
  with a show "get_unique_filename fs p full =
        Some (if full then FullPath (versioned_path p 3)
              else FileName (stem p @ '' - v3'' @ suffix p))"
    by (simp add: get_unique_filename_def versioned_path_def versioned_filename_def s3)
qed

theorem get_unique_filename_versioning_witness:
  "path_exists [episode_link] episode_link \<and>
   \<not> path_exists [episode_link] (versioned_path episode_link 2) \<and>
   get_unique_filename [episode_link] episode_link False =
     Some (FileName ''Show (2020) {imdb-tt1} - s01e01 - v2.mkv'') \<and>
   get_unique_filename [episode_link, versioned_path episode_link 2] episode_link False =
     Some (FileName ''Show (2020) {imdb-tt1} - s01e01 - v3.mkv'') \<and>
   get_unique_filename [] episode_link False =
     Some (FileName ''Show (2020) {imdb-tt1} - s01e01.mkv'')"
proof -
  have e1: "path_exists [episode_link] episode_link"
    by (simp add: path_exists_def)
  have f1: "\<not> path_exists [episode_link] (versioned_path episode_link 2)"
    by code_simp
  have e2: "path_exists [episode_link, versioned_path episode_link 2] episode_link \<and>
            path_exists [episode_link, versioned_path episode_link 2]
              (versioned_path episode_link 2)"
    by (simp add: path_exists_def)
  have f2: "\<not> path_exists [episode_link, versioned_path episode_link 2]
              (versioned_path episode_link 3)"
    by code_simp
  have f3: "\<not> path_exists [] episode_link"
    by (simp add: path_exists_def)
  have st: "stem episode_link = ''Show (2020) {imdb-tt1} - s01e01''"
    by code_simp
  have su: "suffix episode_link = ''.mkv''"
    by code_simp
  have nm: "name episode_link = ''Show (2020) {imdb-tt1} - s01e01.mkv''"
    by (simp add: episode_link_def)
  show ?thesis
    using get_unique_filename_versioning [of "[episode_link]" episode_link False]
          get_unique_filename_versioning
            [of "[episode_link, versioned_path episode_link 2]" episode_link False]
          get_unique_filename_versioning [of "[]" episode_link False]
          e1 f1 e2 f2 f3
    by (simp add: st su nm)
qed

section \<open>Library names\<close>

lemma not_space_paren [simp]: "\<not> is_space CHR ''(''" "\<not> is_space CHR ''{''"
  by (simp_all add: is_space_def)

lemma not_digit_brace [simp]: "\<not> is_digit CHR ''}''"
  by (simp add: is_digit_def)

lemma space_no_paren: "is_space c \<Longrightarrow> c \<noteq> CHR ''(''"
  by auto

lemma digit_no_paren: "is_digit c \<Longrightarrow> c \<noteq> CHR ''(''"
  by (auto simp: is_digit_def)

lemma match_tail_shape:
  assumes "match_tail s = Some (y, i)"
  shows "\<exists>ws ws2 after.
           s = ws @ ''('' @ y @ '')'' @ ws2 @ ''{imdb-tt'' @ i @ ''}'' @ after \<and>
           (\<forall>c\<in>set ws. is_space c) \<and> (\<forall>c\<in>set ws2. is_space c) \<and>
           length y = 4 \<and> (\<forall>c\<in>set y. is_digit c) \<and>
           i \<noteq> [] \<and> (\<forall>c\<in>set i. is_digit c) \<and> (after = [] \<or> after = [newline])"
proof -
  from assms obtain y1 y2 y3 y4 rest where
    s1: "dropWhile is_space s = CHR ''('' # y1 # y2 # y3 # y4 # CHR '')'' # rest" and
    dig: "is_digit y1" "is_digit y2" "is_digit y3" "is_digit y4" and
    rest: "(let r = dropWhile is_space rest
            in if take 8 r = ''{imdb-tt''
               then (let ds = takeWhile is_digit (drop 8 r);
                         after = dropWhile is_digit (drop 8 r)
                     in if ds \<noteq> [] \<and> (after = ''}'' \<or> after = [CHR ''}'', newline])
                        then Some ([y1, y2, y3, y4], ds)
                        else None)
               else None) = Some (y, i)"
    unfolding match_tail_def by (auto split: list.splits if_splits)
  define r where "r = dropWhile is_space rest"
  from rest have pre: "take 8 r = ''{imdb-tt''"
    and y: "y = [y1, y2, y3, y4]"
    and i: "i = takeWhile is_digit (drop 8 r)" "i \<noteq> []"
    and after: "dropWhile is_digit (drop 8 r) = ''}'' \<or>
                dropWhile is_digit (drop 8 r) = [CHR ''}'', newline]"
    unfolding r_def [symmetric] Let_def by (auto split: if_splits)
  have "s = takeWhile is_space s @ dropWhile is_space s" by simp
  moreover have "rest = takeWhile is_space rest @ r" by (simp add: r_def)
  moreover have "r = take 8 r @ drop 8 r" by simp
  moreover have "drop 8 r = i @ dropWhile is_digit (drop 8 r)" by (simp add: i)
  ultimately have s: "s = takeWhile is_space s @ ''('' @ y @ '')'' @ takeWhile is_space rest @
                        ''{imdb-tt'' @ i @ dropWhile is_digit (drop 8 r)"
    using s1 pre y by (metis append_Cons append_Nil)
  have ws: "\<forall>c\<in>set (takeWhile is_space s). is_space c"
    by (auto dest: set_takeWhileD)
  have ws2: "\<forall>c\<in>set (takeWhile is_space rest). is_space c"
    by (auto dest: set_takeWhileD)
  have di: "\<forall>c\<in>set i. is_digit c"
    unfolding i by (auto dest: set_takeWhileD)
  from after show ?thesis
  proof
    assume "dropWhile is_digit (drop 8 r) = ''}''"
    with s have "s = takeWhile is_space s @ ''('' @ y @ '')'' @ takeWhile is_space rest @
                        ''{imdb-tt'' @ i @ ''}'' @ []" by simp
    with ws ws2 di i(2) y dig show ?thesis by (intro exI conjI) (assumption | simp)+
  next
    assume "dropWhile is_digit (drop 8 r) = [CHR ''}'', newline]"
    with s have "s = takeWhile is_space s @ ''('' @ y @ '')'' @ takeWhile is_space rest @
                        ''{imdb-tt'' @ i @ ''}'' @ [newline]" by simp
    with ws ws2 di i(2) y dig show ?thesis by (intro exI conjI) (assumption | simp)+
  qed
qed

lemma match_tail_intro:
  assumes ws: "\<forall>c\<in>set ws. is_space c" and ws2: "\<forall>c\<in>set ws2. is_space c"
      and y: "length y = 4" "\<forall>c\<in>set y. is_digit c"
      and i: "i \<noteq> []" "\<forall>c\<in>set i. is_digit c"
  shows "match_tail (ws @ ''('' @ y @ '')'' @ ws2 @ ''{imdb-tt'' @ i @ ''}'') = Some (y, i)"
proof -
  from y(1) obtain y1 y2 y3 y4 where yy: "y = [y1, y2, y3, y4]"
    by (auto simp: length_Suc_conv numeral_eq_Suc)
  define tl where "tl = i @ ''}''"
  define rest where "rest = ws2 @ ''{imdb-tt'' @ tl"
  have whole: "ws @ ''('' @ y @ '')'' @ ws2 @ ''{imdb-tt'' @ i @ ''}'' =
               ws @ CHR ''('' # y1 # y2 # y3 # y4 # CHR '')'' # rest"
    by (simp add: yy rest_def tl_def)
  have d1: "dropWhile is_space (ws @ CHR ''('' # y1 # y2 # y3 # y4 # CHR '')'' # rest) =
            CHR ''('' # y1 # y2 # y3 # y4 # CHR '')'' # rest"
    using ws by simp
  have d2: "dropWhile is_space rest = ''{imdb-tt'' @ tl"
    unfolding rest_def using ws2 by simp
  have t: "takeWhile is_digit tl = i"
    unfolding tl_def using i(2) by simp
  have d3: "dropWhile is_digit tl = ''}''"
    unfolding tl_def using i(2) by simp
  show ?thesis
    unfolding whole match_tail_def d1 using y(2) i(1)
    by (simp add: d2 t d3 yy)
qed

lemma last_split_unique:
  assumes "xs @ a # ys = xs' @ a # ys'" "a \<notin> set ys" "a \<notin> set ys'"
  shows "xs = xs'"
proof -
  have "rev ys @ a # rev xs = rev ys' @ a # rev xs'"
    using arg_cong [OF assms(1), of rev] by simp
  then have "takeWhile (\<lambda>c. c \<noteq> a) (rev ys @ a # rev xs) =
             takeWhile (\<lambda>c. c \<noteq> a) (rev ys' @ a # rev xs')" by simp
  moreover have "takeWhile (\<lambda>c. c \<noteq> a) (rev zs @ a # ws) = rev zs" if "a \<notin> set zs" for zs ws
    using that by (induction zs rule: rev_induct) auto
  ultimately have "rev ys = rev ys'"
    using assms(2,3) by simp
  with assms(1) show ?thesis by simp
qed

lemma media_match_skip:
  assumes "match_tail s = Some (y, i)"
      and "newline \<notin> set u"
      and "\<forall>p v. u = p @ v \<and> v \<noteq> [] \<longrightarrow> match_tail (v @ s) = None"
  shows "media_match acc (u @ s) = Some (acc @ u, y, i)"
  using assms(2,3)
proof (induction u arbitrary: acc)
  case Nil
  with assms(1) show ?case by (cases s) simp_all
next
  case (Cons c u)
  from Cons.prems(2) have here: "match_tail ((c # u) @ s) = None" by blast
  from Cons.prems(1) have c: "c \<noteq> newline" and nl: "newline \<notin> set u" by auto
  have later: "\<forall>p v. u = p @ v \<and> v \<noteq> [] \<longrightarrow> match_tail (v @ s) = None"
  proof (intro allI impI)
    fix p v assume "u = p @ v \<and> v \<noteq> []"
    then have "c # u = (c # p) @ v \<and> v \<noteq> []" by simp
    with Cons.prems(2) show "match_tail (v @ s) = None" by blast
  qed
  from Cons.IH [OF nl later, of "acc @ [c]"] here c show ?case by simp
qed

lemma media_match_segment:
  "media_match acc s = Some r \<Longrightarrow> has_id_segment s"
proof (induction acc s rule: media_match.induct)
  case (1 title)
  then show ?case by (simp add: match_tail_def)
next
  case (2 title c cs)
  show ?case
  proof (cases "match_tail (c # cs)")
    case (Some yi)
    obtain y i where "yi = (y, i)" by (cases yi)
    with Some match_tail_shape [of "c # cs" y i] obtain ws ws2 after where
      "c # cs = (ws @ ''('' @ y @ '')'' @ ws2) @ ''{imdb-tt'' @ i @ ''}'' @ after"
      "i \<noteq> []" "\<forall>c\<in>set i. is_digit c" by auto
    then show ?thesis unfolding has_id_segment_def by blast
  next
    case None
    with 2 have "has_id_segment cs" by (auto split: if_splits)
    then obtain before ds after where
      "cs = before @ ''{imdb-tt'' @ ds @ ''}'' @ after" "ds \<noteq> []" "\<forall>c\<in>set ds. is_digit c"
      unfolding has_id_segment_def by blast
    then have "c # cs = (c # before) @ ''{imdb-tt'' @ ds @ ''}'' @ after \<and> ds \<noteq> [] \<and>
                (\<forall>c\<in>set ds. is_digit c)" by simp
    then show ?thesis unfolding has_id_segment_def by blast
  qed
qed


lemma rstrip_last:
  assumes "rev (dropWhile is_space (rev t)) = p @ v" "v \<noteq> []"
  shows "\<not> is_space (last v)"
proof -
  have ne: "dropWhile is_space (rev t) \<noteq> []"
  proof
    assume "dropWhile is_space (rev t) = []"
    with assms(1) have "p @ v = []" by simp
    with assms(2) show False by simp
  qed
  have "last v = last (p @ v)" using assms(2) by simp
  also have "\<dots> = last (rev (dropWhile is_space (rev t)))" using assms(1) by simp
  also have "\<dots> = hd (dropWhile is_space (rev t))" by (rule last_rev)
  finally show ?thesis using hd_dropWhile [OF ne] by simp
qed

lemma no_paren_after:
  assumes "\<forall>c\<in>set y. is_digit c" "\<forall>c\<in>set ws2. is_space c" "\<forall>c\<in>set i. is_digit c"
      and "after = [] \<or> after = [newline]"
  shows "CHR ''('' \<notin> set (y @ '')'' @ ws2 @ ''{imdb-tt'' @ i @ ''}'' @ after)"
proof -
  have 1: "CHR ''('' \<notin> set y" using assms(1) digit_no_paren by blast
  have 2: "CHR ''('' \<notin> set ws2" using assms(2) space_no_paren by blast
  have 3: "CHR ''('' \<notin> set i" using assms(3) digit_no_paren by blast
  have 4: "CHR ''('' \<notin> set after" using assms(4) by (auto simp: newline_def)
  show ?thesis using 1 2 3 4 by simp
qed

lemma media_match_library_name:
  assumes y: "length year = 4" "\<forall>c\<in>set year. is_digit c"
      and i: "imdb_id \<noteq> []" "\<forall>c\<in>set imdb_id. is_digit c"
      and nl: "newline \<notin> set title"
  shows "media_match [] (library_name title year imdb_id) =
         Some (rev (dropWhile is_space (rev title)), year, imdb_id)"
proof -
  define T0 where "T0 = rev (dropWhile is_space (rev title))"
  define W where "W = rev (takeWhile is_space (rev title))"
  define S where "S = (W @ '' '') @ ''('' @ year @ '')'' @ '' '' @ ''{imdb-tt'' @ imdb_id @ ''}''"
  have "T0 @ W = rev (takeWhile is_space (rev title) @ dropWhile is_space (rev title))"
    unfolding T0_def W_def by (simp only: rev_append)
  also have "\<dots> = title" by simp
  finally have title: "title = T0 @ W" by (rule sym)
  have W: "\<forall>c\<in>set (W @ '' ''). is_space c"
    by (auto simp: W_def is_space_def dest: set_takeWhileD)
  have sp: "\<forall>c\<in>set '' ''. is_space c" by (simp add: is_space_def)
  have name: "library_name title year imdb_id = T0 @ S"
    by (simp add: library_name_def S_def title)
  have tail: "match_tail S = Some (year, imdb_id)"
    unfolding S_def by (rule match_tail_intro [OF W sp y i])
  have nl0: "newline \<notin> set T0" using nl title by simp
  have earlier: "\<forall>p v. T0 = p @ v \<and> v \<noteq> [] \<longrightarrow> match_tail (v @ S) = None"
  proof (intro allI impI)
    fix p v assume pv: "T0 = p @ v \<and> v \<noteq> []"
    show "match_tail (v @ S) = None"
    proof (rule ccontr)
      assume "match_tail (v @ S) \<noteq> None"
      then obtain y' i' where "match_tail (v @ S) = Some (y', i')" by auto
      from match_tail_shape [OF this] obtain ws ws2 after where
        sh: "v @ S = ws @ ''('' @ y' @ '')'' @ ws2 @ ''{imdb-tt'' @ i' @ ''}'' @ after"
        and ws: "\<forall>c\<in>set ws. is_space c" and ws2: "\<forall>c\<in>set ws2. is_space c"
        and y': "\<forall>c\<in>set y'. is_digit c" and i': "\<forall>c\<in>set i'. is_digit c"
        and after: "after = [] \<or> after = [newline]" by blast
      have r1: "CHR ''('' \<notin> set (y' @ '')'' @ ws2 @ ''{imdb-tt'' @ i' @ ''}'' @ after)"
        by (rule no_paren_after [OF y' ws2 i' after])
      have r2: "CHR ''('' \<notin> set (year @ '')'' @ '' '' @ ''{imdb-tt'' @ imdb_id @ ''}'' @ [])"
        by (rule no_paren_after [OF y(2) sp i(2)]) simp
      have "ws @ CHR ''('' # (y' @ '')'' @ ws2 @ ''{imdb-tt'' @ i' @ ''}'' @ after) =
            (v @ W @ '' '') @ CHR ''('' # (year @ '')'' @ '' '' @ ''{imdb-tt'' @ imdb_id @ ''}'' @ [])"
        using sh by (simp add: S_def)
      from last_split_unique [OF this r1 r2] have "ws = v @ W @ '' ''" .
      with ws have "\<forall>c\<in>set v. is_space c" by simp
      moreover from pv have "last v \<in> set v" by simp
      ultimately have "is_space (last v)" by blast
      moreover have "\<not> is_space (last v)"
        using pv by (intro rstrip_last [of title p v]) (simp_all add: T0_def)
      ultimately show False by simp
    qed
  qed
  from media_match_skip [OF tail nl0 earlier, of "[]"] show ?thesis
    by (simp add: name T0_def)
qed

lemma strip_rstrip: "strip (rev (dropWhile is_space (rev t))) = strip t"
  by (simp add: strip_def dropWhile_idem)

text \<open>
  Claim C8. For a name \<open>Title (Year) {imdb-ttID}\<close> whose year is four digits and whose
  ID is a non-empty run of digits, with a title of one line (no newline character, which
  the pattern's \<^verbatim>\<open>.\<close> does not match), \<^verbatim>\<open>parse_media\<close> returns the title stripped of
  surrounding whitespace, the year and the ID as they are written. For a name that
  contains no segment \<open>{imdb-ttDIGITS}\<close> it raises ValueError.
\<close>

theorem parse_media_roundtrip:
  "(length year = 4 \<and> (\<forall>c\<in>set year. is_digit c) \<and>
    imdb_id \<noteq> [] \<and> (\<forall>c\<in>set imdb_id. is_digit c) \<and> newline \<notin> set title \<longrightarrow>
      parse_media (Path directory (library_name title year imdb_id)) =
        Inr [(''title'', Some (VStr (strip title))),
             (''year'', Some (VStr year)),
             (''imdb_id'', Some (VStr imdb_id))]) \<and>
   (\<not> has_id_segment (name media_path) \<longrightarrow> parse_media media_path = Inl ValueError)"
proof (intro conjI impI)
  assume "length year = 4 \<and> (\<forall>c\<in>set year. is_digit c) \<and>
    imdb_id \<noteq> [] \<and> (\<forall>c\<in>set imdb_id. is_digit c) \<and> newline \<notin> set title"
  then have "media_match [] (library_name title year imdb_id) =
         Some (rev (dropWhile is_space (rev title)), year, imdb_id)"
    by (intro media_match_library_name) simp_all
  then show "parse_media (Path directory (library_name title year imdb_id)) =
        Inr [(''title'', Some (VStr (strip title))),
             (''year'', Some (VStr year)),
             (''imdb_id'', Some (VStr imdb_id))]"
    by (simp add: parse_media_def strip_rstrip)
next
  assume no: "\<not> has_id_segment (name media_path)"
  have "media_match [] (name media_path) = None"
  proof (rule ccontr)
    assume "media_match [] (name media_path) \<noteq> None"
    then obtain r where "media_match [] (name media_path) = Some r" by auto
    from media_match_segment [OF this] no show False by simp
  qed
  then show "parse_media media_path = Inl ValueError"
    by (simp add: parse_media_def)
qed

lemma segment_needs_brace: "has_id_segment s \<Longrightarrow> CHR ''{'' \<in> set s"
  by (auto simp: has_id_segment_def)

theorem parse_media_roundtrip_witness:
  "parse_media (Path ''/library/movies'' (library_name ''The Matrix '' ''1999'' ''0133093'')) =
     Inr [(''title'', Some (VStr ''The Matrix'')),
          (''year'', Some (VStr ''1999'')),
          (''imdb_id'', Some (VStr ''0133093''))] \<and>
   \<not> has_id_segment (name (Path ''/library/movies'' ''The Matrix (1999)'')) \<and>
   parse_media (Path ''/library/movies'' ''The Matrix (1999)'') = Inl ValueError"
proof -
  have h: "length ''1999'' = 4 \<and> (\<forall>c\<in>set ''1999''. is_digit c) \<and>
           ''0133093'' \<noteq> [] \<and> (\<forall>c\<in>set ''0133093''. is_digit c) \<and>
           newline \<notin> set ''The Matrix ''"
    by (simp add: is_digit_def newline_def)
  have st: "strip ''The Matrix '' = ''The Matrix''"
    by (simp add: strip_def is_space_def)
  have no: "\<not> has_id_segment (name (Path ''/library/movies'' ''The Matrix (1999)''))"
    by (rule notI, drule segment_needs_brace) simp
  note t = parse_media_roundtrip
            [of "''1999''" "''0133093''" "''The Matrix ''" "''/library/movies''"
                "Path ''/library/movies'' ''The Matrix (1999)''"]
  from t [THEN conjunct1, THEN mp, OF h] t [THEN conjunct2, THEN mp, OF no] no
  show ?thesis unfolding st by (intro conjI)
qed


section \<open>Torrent name classification\<close>

text \<open>
  What \<^verbatim>\<open>parse_torrent\<close> computes: the kind is \<open>show\<close> exactly when the list of seasons
  or the list under the key \<^verbatim>\<open>episode\<close> is there and not empty, and \<open>movie\<close> otherwise;
  the list under the key \<^verbatim>\<open>episodes\<close> is not read. A falsy title raises ValueError.
\<close>

lemma parse_torrent_result:
  "(truthy (ptt_title (parse_title (name torrent_path))) \<longrightarrow>
      parse_torrent parse_title torrent_path =
        Inr \<lparr>info_title = ptt_title (parse_title (name torrent_path)),
             info_year = ptt_year (parse_title (name torrent_path)),
             info_kind =
               (if truthy_list (ptt_seasons (parse_title (name torrent_path))) \<or>
                   truthy_list (ptt_episode (parse_title (name torrent_path)))
                then ''show'' else ''movie'')\<rparr>) \<and>
   (\<not> truthy (ptt_title (parse_title (name torrent_path))) \<longrightarrow>
      parse_torrent parse_title torrent_path = Inl ValueError)"
  by (simp add: parse_torrent_def determine_media_type_def Let_def)

text \<open>
  Claim C9, evaluated. A name with a season is classified as a show and a name
  without a title raises ValueError, as the claim says. For a name from which the
  parser extracts episode 5 and no season, \<^verbatim>\<open>parse_torrent_episode\<close> finds the episode
  under the key \<^verbatim>\<open>episodes\<close>, but \<^verbatim>\<open>_determine_media_type\<close> reads the key \<^verbatim>\<open>episode\<close>,
  finds nothing and classifies the name as a movie.
\<close>

theorem parse_torrent_ignores_episodes:
  "map_sum id info_kind
     (parse_torrent show_parse_title (Path ''/downloads'' ''Game.of.Thrones.S01'')) =
     Inr ''show'' \<and>
   parse_torrent empty_parse_title (Path ''/downloads'' ''Game.of.Thrones.S01'') =
     Inl ValueError \<and>
   parse_torrent_episode episodes_only_parse_title ''Show.E05.mkv'' = (None, Some (VInt 5)) \<and>
   map_sum id info_kind
     (parse_torrent episodes_only_parse_title (Path ''/downloads'' ''Show.E05'')) =
     Inr ''movie''"
  by code_simp

section \<open>Resolver preconditions\<close>

text \<open>
  Claim C10. When the title is empty (or \<^verbatim>\<open>None\<close>) or the kind is neither \<open>movie\<close> nor
  \<open>show\<close>, \<^verbatim>\<open>get_imdb_id\<close> raises ValueError and has sent no query to the search
  service. With a title and a valid kind it sends exactly one query.
\<close>

theorem get_imdb_id_validates_first:
  "(\<not> truthy title \<or> kind \<notin> {''movie'', ''show''} \<longrightarrow>
      get_imdb_id search_movie title year kind = (Inl ValueError, [])) \<and>
   (truthy title \<and> kind \<in> {''movie'', ''show''} \<longrightarrow>
      length (snd (get_imdb_id search_movie title year kind)) = 1)"
  by (auto simp: get_imdb_id_def VALID_TYPES_def Let_def split: option.splits)

theorem get_imdb_id_validates_first_witness:
  "get_imdb_id example_search (Some (VStr [])) (Some (VInt 1999)) ''movie'' = (Inl ValueError, []) \<and>
   get_imdb_id example_search (Some (VStr ''The Matrix'')) None ''film'' = (Inl ValueError, []) \<and>
   length (snd (get_imdb_id example_search (Some (VStr ''The Matrix'')) None ''movie'')) = 1"
  using get_imdb_id_validates_first
          [of "Some (VStr [])" "''movie''" example_search "Some (VInt 1999)"]
        get_imdb_id_validates_first
          [of "Some (VStr ''The Matrix'')" "''film''" example_search None]
        get_imdb_id_validates_first
          [of "Some (VStr ''The Matrix'')" "''movie''" example_search None]
  by simp

section \<open>Library scanner: file registration\<close>

text \<open>
  What \<^verbatim>\<open>index_media\<close> records for one file: the symlink path is the text of the
  discovered path, the size is the file's size, season and episode come from
  \<^verbatim>\<open>extract_media_episode\<close>, and the target path is the text of the resolved path for a
  symbolic link and the text \<open>None\<close> for any other file.
\<close>

lemma library_media_file_attributes:
  "getattr (library_media_file imdb_id file) ''symlink_path'' = Some (VStr (file_str file)) \<and>
   getattr (library_media_file imdb_id file) ''target_path'' =
     Some (VStr (if is_symlink file then resolve file else ''None'')) \<and>
   getattr (library_media_file imdb_id file) ''file_size'' = Some (VInt (st_size file)) \<and>
   getattr (library_media_file imdb_id file) ''season'' = fst (extract_media_episode (file_str file)) \<and>
   getattr (library_media_file imdb_id file) ''episode'' = snd (extract_media_episode (file_str file)) \<and>
   getattr (library_media_file imdb_id file) ''media_id'' = imdb_id"
  by (simp add: library_media_file_def MediaFile_create_def getattr_def dict_get_def Let_def
        split: prod.split)

text \<open>
  Claim C5, evaluated. A new Media directory holds a regular file and a symbolic
  link. For the link the target path is the resolved path. For the regular file the
  target path is not left unset: \<^verbatim>\<open>str(... else None)\<close> stores the four letters
  \<open>None\<close>.
\<close>

theorem index_media_regular_file_target:
  "\<not> is_symlink regular_file \<and>
   getattr (mediafiles (index_media empty_store [regular_file, linked_file] ''show''
              (Some (VStr ''1'')) (Some (VStr ''Show'')) (Some (VStr ''2020''))
              (Some (VBool False))) ! 0) ''symlink_path'' = Some (VStr (file_str regular_file)) \<and>
   getattr (mediafiles (index_media empty_store [regular_file, linked_file] ''show''
              (Some (VStr ''1'')) (Some (VStr ''Show'')) (Some (VStr ''2020''))
              (Some (VBool False))) ! 0) ''target_path'' = Some (VStr ''None'') \<and>
   is_symlink linked_file \<and>
   getattr (mediafiles (index_media empty_store [regular_file, linked_file] ''show''
              (Some (VStr ''1'')) (Some (VStr ''Show'')) (Some (VStr ''2020''))
              (Some (VBool False))) ! 1) ''target_path'' = Some (VStr (resolve linked_file))"
  by code_simp

section \<open>Torrent scanner: file selection\<close>

lemma max_by_size_in: "max_by_size best files \<in> set (best # files)"
  by (induction files arbitrary: best) auto

lemma max_by_size_ge: "f \<in> set (best # files) \<Longrightarrow> st_size f \<le> st_size (max_by_size best files)"
proof (induction files arbitrary: best f)
  case Nil
  then show ?case by simp
next
  case (Cons g files)
  let ?b = "if st_size g > st_size best then g else best"
  have b: "st_size best \<le> st_size ?b" "st_size g \<le> st_size ?b" by auto
  have top: "st_size ?b \<le> st_size (max_by_size ?b files)"
    by (rule Cons.IH) simp
  from Cons.prems consider "f = best" | "f = g" | "f \<in> set files" by auto
  then show ?case
  proof cases
    case 1
    with b(1) top show ?thesis by simp
  next
    case 2
    with b(2) top show ?thesis by simp
  next
    case 3
    then have "st_size f \<le> st_size (max_by_size ?b files)"
      by (intro Cons.IH) simp
    then show ?thesis by simp
  qed
qed

lemma MediaFileHandler_update_torrent_id:
  "getattr (torrents (MediaFileHandler_update s i kwargs) ! ti) ''id'' =
   getattr (torrents s ! ti) ''id''"
proof -
  have upd: "getattr (ts[tj := setattr (ts ! tj) ''media_id'' v] ! ti) ''id'' = getattr (ts ! ti) ''id''"
    for ts :: "entity list" and tj v
  proof (cases "tj < length ts")
    case True
    then show ?thesis by (simp add: nth_list_update getattr_setattr)
  next
    case False
    then show ?thesis by (simp add: list_update_beyond)
  qed
  show ?thesis
    by (simp add: MediaFileHandler_update_def Let_def upd split: option.split)
qed

lemma MediaFileHandler_add_torrent_id:
  "getattr (torrents (fst (MediaFileHandler_add s e)) ! ti) ''id'' = getattr (torrents s ! ti) ''id''"
  by (simp add: MediaFileHandler_add_def MediaFileHandler_update_torrent_id split: option.split)

lemma index_show_files_filter:
  "index_show_files repo parse_title ti files =
   foldl (\<lambda>r f. fst (MediaFileHandler_add r
                     (torrent_media_file (getattr (torrents repo ! ti) ''id'') f
                        (fst (parse_torrent_episode parse_title (file_name f)))
                        (snd (parse_torrent_episode parse_title (file_name f))))))
     repo
     (filter (\<lambda>f. truthy (fst (parse_torrent_episode parse_title (file_name f))) \<and>
                  truthy (snd (parse_torrent_episode parse_title (file_name f)))) files)"
proof (induction files arbitrary: repo)
  case Nil
  show ?case by simp
next
  case (Cons f0 files)
  obtain season episode where se: "parse_torrent_episode parse_title (file_name f0) = (season, episode)"
    by (cases "parse_torrent_episode parse_title (file_name f0)")
  show ?case
  proof (cases "truthy season \<and> truthy episode")
    case True
    let ?r = "fst (MediaFileHandler_add repo
                 (torrent_media_file (getattr (torrents repo ! ti) ''id'') f0 season episode))"
    have id: "getattr (torrents ?r ! ti) ''id'' = getattr (torrents repo ! ti) ''id''"
      by (rule MediaFileHandler_add_torrent_id)
    have step: "index_show_files repo parse_title ti (f0 # files) =
                index_show_files ?r parse_title ti files"
      using True by (simp add: se)
    from True show ?thesis
      unfolding step Cons.IH [of ?r] id by (simp add: se)
  next
    case False
    have step: "index_show_files repo parse_title ti (f0 # files) =
                index_show_files repo parse_title ti files"
      using False by (auto simp: se)
    from False show ?thesis
      unfolding step Cons.IH [of repo] by (auto simp: se)
  qed
qed

lemma max_by_size_first:
  "\<exists>pre post. best # files = pre @ max_by_size best files # post \<and>
              (\<forall>f\<in>set pre. st_size f < st_size (max_by_size best files)) \<and>
              (\<forall>f\<in>set post. st_size f \<le> st_size (max_by_size best files))"
proof (induction files arbitrary: best)
  case Nil
  show ?case by (rule exI [of _ "[]"], rule exI [of _ "[]"]) simp
next
  case (Cons g files)
  let ?b = "if st_size g > st_size best then g else best"
  let ?m = "max_by_size ?b files"
  have m: "max_by_size best (g # files) = ?m" by simp
  from Cons.IH [of ?b] obtain pre post where
    split: "?b # files = pre @ ?m # post" and
    lt: "\<forall>f\<in>set pre. st_size f < st_size ?m" and
    le: "\<forall>f\<in>set post. st_size f \<le> st_size ?m" by blast
  have bm: "st_size ?b \<le> st_size ?m" by (rule max_by_size_ge) simp
  show ?case
  proof (cases "st_size g > st_size best")
    case True
    then have "best # g # files = (best # pre) @ ?m # post" using split by simp
    moreover have "\<forall>f\<in>set (best # pre). st_size f < st_size ?m"
      using True bm lt by auto
    ultimately show ?thesis unfolding m using le by blast
  next
    case False
    show ?thesis
    proof (cases pre)
      case Nil
      with split False have "?m = best" "post = files" by auto
      then have "best # g # files = [] @ ?m # (g # post)" by simp
      moreover have "\<forall>f\<in>set (g # post). st_size f \<le> st_size ?m"
        using False le \<open>?m = best\<close> by auto
      ultimately show ?thesis unfolding m by (metis empty_iff list.set(1))
    next
      case (Cons p ps)
      with split False have p: "p = best" and files: "files = ps @ ?m # post" by auto
      from lt Cons p have "st_size best < st_size ?m" by simp
      with False have g: "st_size g < st_size ?m" by simp
      have "best # g # files = (best # g # ps) @ ?m # post" using files by simp
      moreover have "\<forall>f\<in>set (best # g # ps). st_size f < st_size ?m"
        using lt Cons p g by auto
      ultimately show ?thesis unfolding m using le by blast
    qed
  qed
qed

lemma TorrentHandler_add_mediafiles:
  "mediafiles (fst (TorrentHandler_add s e)) = mediafiles s"
  by (simp add: TorrentHandler_add_def split: option.split)

lemma MediaFileHandler_add_fresh_target:
  assumes "\<forall>f\<in>set (mediafiles s).
              getattr f ''target_path'' \<noteq> Some (VStr (file_str file)) \<and>
              getattr f ''symlink_path'' \<noteq> Some (VStr (file_str file))"
  shows "mediafiles (fst (MediaFileHandler_add s (torrent_media_file tid file season episode))) =
         mediafiles s @ [flush_id (mediafiles s) (torrent_media_file tid file season episode)]"
proof -
  have key: "py_str (py_or (getattr (torrent_media_file tid file season episode) ''symlink_path'')
                           (getattr (torrent_media_file tid file season episode) ''target_path'')) =
             file_str file"
    by (simp add: torrent_media_file_def MediaFile_create_def getattr_def dict_get_def py_or_def)
  have "first_index (\<lambda>f. getattr f ''target_path'' = Some (VStr (file_str file)) \<or>
                         getattr f ''symlink_path'' = Some (VStr (file_str file))) (mediafiles s) = None"
    using assms by (intro first_index_NoneI) auto
  then have "MediaFileHandler_get_by_path s
               (py_or (getattr (torrent_media_file tid file season episode) ''symlink_path'')
                      (getattr (torrent_media_file tid file season episode) ''target_path'')) = None"
    by (simp add: MediaFileHandler_get_by_path_def key)
  then show ?thesis by (simp add: MediaFileHandler_add_def)
qed

text \<open>
  What \<^verbatim>\<open>index_torrent\<close> selects from a non-empty list of files. For kind \<open>movie\<close> one
  MediaFile is handed to the store, built from the first file of the largest size;
  when no stored row has that file's path, it is inserted as one new row. For any
  other kind a MediaFile is handed over for exactly the files whose first season and
  first episode are both truthy, in the order of the list.
\<close>

lemma index_torrent_selection:
  assumes "files \<noteq> []"
      and "repo1 = fst (TorrentHandler_add repo (Torrent_new (Some (VStr torrent_path)) title year))"
      and "torrent_id =
             getattr (torrents repo1 !
                        snd (TorrentHandler_add repo (Torrent_new (Some (VStr torrent_path)) title year)))
               ''id''"
  shows "(\<exists>pre target post.
            files = pre @ target # post \<and>
            (\<forall>f\<in>set pre. st_size f < st_size target) \<and>
            (\<forall>f\<in>set post. st_size f \<le> st_size target) \<and>
            index_torrent repo parse_title torrent_path files ''movie'' title year =
              Inr (fst (MediaFileHandler_add repo1
                          (torrent_media_file torrent_id target None None))) \<and>
            ((\<forall>f\<in>set (mediafiles repo).
                 getattr f ''target_path'' \<noteq> Some (VStr (file_str target)) \<and>
                 getattr f ''symlink_path'' \<noteq> Some (VStr (file_str target))) \<longrightarrow>
               mediafiles (fst (MediaFileHandler_add repo1
                                  (torrent_media_file torrent_id target None None))) =
                 mediafiles repo @
                   [flush_id (mediafiles repo) (torrent_media_file torrent_id target None None)])) \<and>
         (kind \<noteq> ''movie'' \<longrightarrow>
            index_torrent repo parse_title torrent_path files kind title year =
              Inr (foldl (\<lambda>r f. fst (MediaFileHandler_add r
                                      (torrent_media_file torrent_id f
                                         (fst (parse_torrent_episode parse_title (file_name f)))
                                         (snd (parse_torrent_episode parse_title (file_name f))))))
                     repo1
                     (filter (\<lambda>f. truthy (fst (parse_torrent_episode parse_title (file_name f))) \<and>
                                  truthy (snd (parse_torrent_episode parse_title (file_name f))))
                        files)))"
proof (intro conjI impI)
  from assms(1) obtain f0 rest where files: "files = f0 # rest" by (cases files) auto
  let ?target = "max_by_size f0 rest"
  from max_by_size_first [of f0 rest] obtain pre post where
    split: "files = pre @ ?target # post" and
    lt: "\<forall>f\<in>set pre. st_size f < st_size ?target" and
    le: "\<forall>f\<in>set post. st_size f \<le> st_size ?target"
    unfolding files by blast
  have run: "index_torrent repo parse_title torrent_path files ''movie'' title year =
              Inr (fst (MediaFileHandler_add repo1
                          (torrent_media_file torrent_id ?target None None)))"
    by (simp add: index_torrent_def files assms(2,3) Let_def split: prod.split)
  have m1: "mediafiles repo1 = mediafiles repo"
    unfolding assms(2) by (rule TorrentHandler_add_mediafiles)
  have ins: "(\<forall>f\<in>set (mediafiles repo).
                 getattr f ''target_path'' \<noteq> Some (VStr (file_str ?target)) \<and>
                 getattr f ''symlink_path'' \<noteq> Some (VStr (file_str ?target))) \<longrightarrow>
               mediafiles (fst (MediaFileHandler_add repo1
                                  (torrent_media_file torrent_id ?target None None))) =
                 mediafiles repo @
                   [flush_id (mediafiles repo) (torrent_media_file torrent_id ?target None None)]"
    using MediaFileHandler_add_fresh_target [of repo1 ?target torrent_id None None]
    by (simp add: m1)
  from split lt le run ins
  show "\<exists>pre target post.
            files = pre @ target # post \<and>
            (\<forall>f\<in>set pre. st_size f < st_size target) \<and>
            (\<forall>f\<in>set post. st_size f \<le> st_size target) \<and>
            index_torrent repo parse_title torrent_path files ''movie'' title year =
              Inr (fst (MediaFileHandler_add repo1
                          (torrent_media_file torrent_id target None None))) \<and>
            ((\<forall>f\<in>set (mediafiles repo).
                 getattr f ''target_path'' \<noteq> Some (VStr (file_str target)) \<and>
                 getattr f ''symlink_path'' \<noteq> Some (VStr (file_str target))) \<longrightarrow>
               mediafiles (fst (MediaFileHandler_add repo1
                                  (torrent_media_file torrent_id target None None))) =
                 mediafiles repo @
                   [flush_id (mediafiles repo) (torrent_media_file torrent_id target None None)])"
    by blast
next
  assume "kind \<noteq> ''movie''"
  then show "index_torrent repo parse_title torrent_path files kind title year =
              Inr (foldl (\<lambda>r f. fst (MediaFileHandler_add r
                                      (torrent_media_file torrent_id f
                                         (fst (parse_torrent_episode parse_title (file_name f)))
                                         (snd (parse_torrent_episode parse_title (file_name f))))))
                     repo1
                     (filter (\<lambda>f. truthy (fst (parse_torrent_episode parse_title (file_name f))) \<and>
                                  truthy (snd (parse_torrent_episode parse_title (file_name f))))
                        files))"
    by (simp add: index_torrent_def assms(2,3) Let_def index_show_files_filter split: prod.split)
qed

text \<open>
  Claim C7, evaluated. Of three files of 100, 200 and 50 bytes a movie torrent keeps
  the 200-byte file only, and a show torrent keeps the file with season and episode
  and drops the one without. A special whose season and episode are the texts \<open>00\<close> and
  \<open>01\<close> is kept. When the parser gives them as the numbers 0 and 1, both are
  extracted, yet \<^verbatim>\<open>if season and episode\<close> is false for the number 0 and no MediaFile
  is inserted.
\<close>

theorem index_torrent_drops_season_zero:
  "map_sum id (\<lambda>r. map (\<lambda>f. (getattr f ''target_path'', getattr f ''file_size'')) (mediafiles r))
     (index_torrent empty_store episode_parse_title ''/downloads/matrix'' three_files ''movie''
        (Some (VStr ''The Matrix'')) (Some (VInt 1999))) =
     Inr [(Some (VStr ''/downloads/matrix/b.mkv''), Some (VInt 200))] \<and>
   map_sum id (\<lambda>r. map (\<lambda>f. getattr f ''target_path'') (mediafiles r))
     (index_torrent empty_store episode_parse_title ''/downloads/matrix'' two_episode_files ''show''
        (Some (VStr ''The Matrix'')) (Some (VInt 1999))) =
     Inr [Some (VStr ''/downloads/matrix/S01E02.mkv'')] \<and>
   parse_torrent_episode text_special_parse_title (file_name special_file) =
     (Some (VStr ''00''), Some (VStr ''01'')) \<and>
   map_sum id (\<lambda>r. map (\<lambda>f. getattr f ''target_path'') (mediafiles r))
     (index_torrent empty_store text_special_parse_title ''/downloads/Show.S00'' [special_file]
        ''show'' (Some (VStr ''Show'')) None) =
     Inr [Some (VStr ''/downloads/matrix/Show.S00E01.mkv'')] \<and>
   parse_torrent_episode special_parse_title (file_name special_file) =
     (Some (VInt 0), Some (VInt 1)) \<and>
   map_sum id mediafiles
     (index_torrent empty_store special_parse_title ''/downloads/Show.S00'' [special_file]
        ''show'' (Some (VStr ''Show'')) None) =
     Inr []"
  by code_simp


end
